theory Spec2Isabelle
  imports Main
begin

section \<open>Reconnect backoff of the two connection services\<close>

text \<open>
  \<^verbatim>\<open>whatsapp-connection.service.ts\<close> and \<^verbatim>\<open>amqp-connection.service.ts\<close> each declare
  the three backoff constants and compute, in \<^verbatim>\<open>scheduleReconnect\<close>,
  \<^verbatim>\<open>Math.min(INITIAL_RECONNECT_DELAY * Math.pow(RECONNECT_FACTOR, this.reconnectAttempts),
  MAX_RECONNECT_DELAY)\<close>.
  \<^verbatim>\<open>reconnectAttempts\<close> starts at 0 and is only ever incremented or reset to 0, so it is a
  natural number. The product \<open>5000 * 2 ^ n\<close> is exact in IEEE doubles until it overflows to
  \<open>+Infinity\<close>, and \<^verbatim>\<open>Math.min\<close> of either with 60000 is the same number as over the
  integers, so the delay is modelled over \<open>int\<close>.
\<close>

definition INITIAL_RECONNECT_DELAY :: int where
  "INITIAL_RECONNECT_DELAY = 5000"

definition MAX_RECONNECT_DELAY :: int where
  "MAX_RECONNECT_DELAY = 60000"

definition RECONNECT_FACTOR :: int where
  "RECONNECT_FACTOR = 2"

definition wa_reconnect_delay :: "nat \<Rightarrow> int" where
  "wa_reconnect_delay reconnectAttempts =
     min (INITIAL_RECONNECT_DELAY * RECONNECT_FACTOR ^ reconnectAttempts) MAX_RECONNECT_DELAY"

definition AMQP_INITIAL_RECONNECT_DELAY :: int where
  "AMQP_INITIAL_RECONNECT_DELAY = 5000"

definition AMQP_MAX_RECONNECT_DELAY :: int where
  "AMQP_MAX_RECONNECT_DELAY = 60000"

definition AMQP_RECONNECT_FACTOR :: int where
  "AMQP_RECONNECT_FACTOR = 2"

definition amqp_reconnect_delay :: "nat \<Rightarrow> int" where
  "amqp_reconnect_delay reconnectAttempts =
     min (AMQP_INITIAL_RECONNECT_DELAY * AMQP_RECONNECT_FACTOR ^ reconnectAttempts)
       AMQP_MAX_RECONNECT_DELAY"

section \<open>The gateway connection service and the event registry\<close>

text \<open>
  \<^verbatim>\<open>WhatsappConnectionService\<close> and \<^verbatim>\<open>WhatsappEventRegistryService\<close> share the socket
  objects, so they are modelled on one state. A socket object is what the services use of
  it: whether \<^verbatim>\<open>sock.user\<close> is set, the listeners registered on \<^verbatim>\<open>sock.ev\<close> in
  registration order, and whether it has reported \<^verbatim>\<open>connection: 'close'\<close> (a socket
  reports it once and then stays silent). A listener is the connection service's own
  \<^verbatim>\<open>connection.update\<close> listener, its \<^verbatim>\<open>creds.update\<close> listener, or the wrapper that the
  registry builds around the handler with a given index.
\<close>

datatype listener = InternalListener | SaveCreds | HandlerWrapper nat

record WASocket =
  user :: bool
  ev :: "(string \<times> listener) list"
  closed :: bool

text \<open>
  The timers armed by \<^verbatim>\<open>setTimeout\<close> and not yet fired or cleared, with their callback and
  delay, and the invocations of \<^verbatim>\<open>connectToWhatsApp\<close> suspended at one of its two
  \<^verbatim>\<open>await\<close>s, belong to the runtime; the six fields before them are the fields of the
  connection service. \<open>store\<close> holds \<^verbatim>\<open>Object.keys(this.store.contacts).length\<close>.
\<close>

datatype timer_callback = ReconnectCallback | ConnectionAttemptCallback | RegisterHandlersCallback

datatype suspended = AwaitLogout nat | AwaitAuthState

record wa_world =
  sock :: "nat option"
  store :: "nat option"
  isConnecting :: bool
  connectionAttemptTimeout :: "nat option"
  reconnectTimeout :: "nat option"
  reconnectAttempts :: nat
  sockets :: "nat \<Rightarrow> WASocket"
  next_sock :: nat
  timers :: "(nat \<times> timer_callback \<times> int) list"
  next_timer :: nat
  pending :: "suspended list"

definition CONNECTION_TIMEOUT_MS :: int where
  "CONNECTION_TIMEOUT_MS = 90000"

definition isConnected :: "wa_world \<Rightarrow> bool" where
  "isConnected w =
     ((case sock w of None \<Rightarrow> False | Some k \<Rightarrow> user (sockets w k)) \<or>
      (case store w of None \<Rightarrow> False | Some contacts \<Rightarrow> contacts > 0))"

definition setTimeout :: "timer_callback \<Rightarrow> int \<Rightarrow> wa_world \<Rightarrow> nat \<times> wa_world" where
  "setTimeout cb delay w =
     (next_timer w,
      w\<lparr>timers := timers w @ [(next_timer w, cb, delay)], next_timer := Suc (next_timer w)\<rparr>)"

definition clearTimeout :: "nat \<Rightarrow> wa_world \<Rightarrow> wa_world" where
  "clearTimeout t w = w\<lparr>timers := filter (\<lambda>x. fst x \<noteq> t) (timers w)\<rparr>"

definition clearConnectionAttemptTimeout :: "wa_world \<Rightarrow> wa_world" where
  "clearConnectionAttemptTimeout w =
     (case connectionAttemptTimeout w of
        None \<Rightarrow> w
      | Some t \<Rightarrow> (clearTimeout t w)\<lparr>connectionAttemptTimeout := None\<rparr>)"

definition clearReconnectTimeout :: "wa_world \<Rightarrow> wa_world" where
  "clearReconnectTimeout w =
     (case reconnectTimeout w of
        None \<Rightarrow> w
      | Some t \<Rightarrow> (clearTimeout t w)\<lparr>reconnectTimeout := None\<rparr>)"

definition scheduleReconnect :: "wa_world \<Rightarrow> wa_world" where
  "scheduleReconnect w =
     (if isConnecting w \<or> reconnectTimeout w \<noteq> None then w
      else
        (let delay = wa_reconnect_delay (reconnectAttempts w);
             (t, w') = setTimeout ReconnectCallback delay w
         in w'\<lparr>reconnectTimeout := Some t\<rparr>))"

subsection \<open>The registry\<close>

text \<open>
  The handler list injected into the registry is the one built in
  \<^verbatim>\<open>whatsapp.module.ts\<close>: \<^verbatim>\<open>[messagesHandler, connectionHandler]\<close>, given here by the
  \<^verbatim>\<open>eventName\<close> of each. \<^verbatim>\<open>registerHandlers\<close> calls \<^verbatim>\<open>socket.ev.on\<close> once per handler
  on the socket returned by \<^verbatim>\<open>getSocket()\<close>; \<^verbatim>\<open>unregisterHandlers\<close> calls
  \<^verbatim>\<open>socket.ev.removeAllListeners(handler.eventName)\<close> once per handler. Both return at
  once when \<^verbatim>\<open>getSocket()\<close> is null.
\<close>

definition handlers :: "string list" where
  "handlers = [''messages.upsert'', ''connection.update'']"

definition registerHandlers :: "string list \<Rightarrow> wa_world \<Rightarrow> wa_world" where
  "registerHandlers hs w =
     (case sock w of
        None \<Rightarrow> w
      | Some k \<Rightarrow>
          w\<lparr>sockets := (sockets w)
               (k := (sockets w k)
                  \<lparr>ev := ev (sockets w k) @
                          map (\<lambda>(i, eventName). (eventName, HandlerWrapper i)) (enumerate 0 hs)\<rparr>)\<rparr>)"

definition unregisterHandlers :: "string list \<Rightarrow> wa_world \<Rightarrow> wa_world" where
  "unregisterHandlers hs w =
     (case sock w of
        None \<Rightarrow> w
      | Some k \<Rightarrow>
          w\<lparr>sockets := (sockets w)
               (k := (sockets w k)
                  \<lparr>ev := filter (\<lambda>(eventName, l). eventName \<notin> set hs) (ev (sockets w k))\<rparr>)\<rparr>)"

text \<open>
  The listeners that socket \<open>k\<close> invokes, in order, when it emits the event \<open>e\<close>; each
  \<open>HandlerWrapper i\<close> among them is one call of \<^verbatim>\<open>handle\<close> on handler \<open>i\<close>.
\<close>

definition invoked :: "wa_world \<Rightarrow> nat \<Rightarrow> string \<Rightarrow> listener list" where
  "invoked w k e = map snd (filter (\<lambda>(eventName, l). eventName = e) (ev (sockets w k)))"

text \<open>
  The registry's subscriptions on the connection service's emitter (\<^verbatim>\<open>onModuleInit\<close>):
  \<^verbatim>\<open>'pre-disconnect'\<close> runs \<^verbatim>\<open>unregisterHandlers\<close>, \<^verbatim>\<open>'connection.open'\<close> arms a timer of
  100 ms for \<^verbatim>\<open>registerHandlers\<close>.
\<close>

definition emit_pre_disconnect :: "wa_world \<Rightarrow> wa_world" where
  "emit_pre_disconnect w = unregisterHandlers handlers w"

definition emit_connection_open :: "wa_world \<Rightarrow> wa_world" where
  "emit_connection_open w = snd (setTimeout RegisterHandlersCallback 100 w)"

subsection \<open>Connecting\<close>

text \<open>
  \<^verbatim>\<open>connectToWhatsApp\<close> up to its first suspension: the guard, the flag, the two
  \<^verbatim>\<open>clear...Timeout\<close> calls, and then either the clean-up of the previous socket up to
  \<^verbatim>\<open>await this.sock.logout()\<close> or, without a previous socket,
  \<^verbatim>\<open>await useMultiFileAuthState(...)\<close>.
\<close>

definition connectToWhatsApp :: "wa_world \<Rightarrow> wa_world" where
  "connectToWhatsApp w =
     (if isConnecting w then w
      else
        (let w1 = clearReconnectTimeout (clearConnectionAttemptTimeout (w\<lparr>isConnecting := True\<rparr>))
         in case sock w1 of
              Some k \<Rightarrow> (emit_pre_disconnect w1)\<lparr>pending := pending w1 @ [AwaitLogout k]\<rparr>
            | None \<Rightarrow> w1\<lparr>pending := pending w1 @ [AwaitAuthState]\<rparr>))"

text \<open>
  The invocation resumes from \<^verbatim>\<open>await this.sock.logout()\<close>, which resolved (\<open>ok\<close>) or
  rejected. On rejection \<^verbatim>\<open>this.sock.end(undefined)\<close> is called, a TypeError when the field
  has become null meanwhile: then \<^verbatim>\<open>finally\<close> still clears the field and the invocation ends
  with the error, the flag left set. Otherwise it goes on to
  \<^verbatim>\<open>await useMultiFileAuthState(...)\<close>.
\<close>

definition after_logout :: "bool \<Rightarrow> wa_world \<Rightarrow> wa_world" where
  "after_logout ok w =
     (if \<not> ok \<and> sock w = None then w\<lparr>sock := None\<rparr>
      else w\<lparr>sock := None, pending := pending w @ [AwaitAuthState]\<rparr>)"

text \<open>
  The invocation resumes from \<^verbatim>\<open>await useMultiFileAuthState(...)\<close>: the promise rejected;
  or \<^verbatim>\<open>makeWASocket\<close> threw after the store was made; or the socket was created, with
  \<^verbatim>\<open>sock.user\<close> set or not, the two internal listeners were registered on it and the
  timeout of the attempt was armed. The \<^verbatim>\<open>catch\<close> resets the flag, counts the attempt and
  schedules a reconnect.
\<close>

datatype auth_outcome = AuthStateRejected | MakeSocketThrew | SocketCreated bool

definition connect_failed :: "wa_world \<Rightarrow> wa_world" where
  "connect_failed w =
     scheduleReconnect (w\<lparr>isConnecting := False, reconnectAttempts := Suc (reconnectAttempts w)\<rparr>)"

definition after_auth_state :: "auth_outcome \<Rightarrow> wa_world \<Rightarrow> wa_world" where
  "after_auth_state outcome w =
     (case outcome of
        AuthStateRejected \<Rightarrow> connect_failed w
      | MakeSocketThrew \<Rightarrow> connect_failed (w\<lparr>store := Some 0\<rparr>)
      | SocketCreated u \<Rightarrow>
          (let k = next_sock w;
               w1 = w\<lparr>store := Some 0, sock := Some k, next_sock := Suc k,
                      sockets := (sockets w)
                        (k := \<lparr>user = u,
                               ev = [(''connection.update'', InternalListener),
                                     (''creds.update'', SaveCreds)],
                               closed = False\<rparr>)\<rparr>;
               (t, w2) = setTimeout ConnectionAttemptCallback CONNECTION_TIMEOUT_MS w1
           in w2\<lparr>connectionAttemptTimeout := Some t\<rparr>))"

subsection \<open>The internal \<^verbatim>\<open>connection.update\<close> listener\<close>

datatype connection_state = ConnectionOpen | ConnectionClose | ConnectionOther

record ConnectionUpdate =
  connection :: connection_state
  statusCode :: "nat option"

definition loggedOut :: nat where
  "loggedOut = 401"

text \<open>
  Lines 170 to 219. The \<^verbatim>\<open>qr\<close> branch only logs and emits an event nobody in the
  repository subscribes to, and is left out. In the \<^verbatim>\<open>close\<close> branch the field
  \<^verbatim>\<open>this.sock\<close> is cleared before \<^verbatim>\<open>'pre-disconnect'\<close> is emitted.
\<close>

definition on_connection_update :: "ConnectionUpdate \<Rightarrow> wa_world \<Rightarrow> wa_world" where
  "on_connection_update update w =
     (let w1 = clearConnectionAttemptTimeout w
      in case connection update of
           ConnectionClose \<Rightarrow>
             (let shouldReconnect = (statusCode update \<noteq> Some loggedOut);
                  w2 = w1\<lparr>isConnecting := False, sock := None, store := None\<rparr>;
                  w3 = emit_pre_disconnect w2
              in if shouldReconnect
                 then scheduleReconnect (w3\<lparr>reconnectAttempts := Suc (reconnectAttempts w3)\<rparr>)
                 else w3)
         | ConnectionOpen \<Rightarrow>
             emit_connection_open (w1\<lparr>isConnecting := False, reconnectAttempts := 0\<rparr>)
         | ConnectionOther \<Rightarrow> w1)"

subsection \<open>What can happen to the service\<close>

text \<open>
  The service is entered by its timers, by the resumption of a suspended
  \<^verbatim>\<open>connectToWhatsApp\<close>, by a \<^verbatim>\<open>connection.update\<close> of a socket on which the internal
  listener is registered and which has not yet reported \<^verbatim>\<open>close\<close>, and by the registry's
  \<^verbatim>\<open>onModuleInit\<close>, which registers the handlers once. Contacts reach the store through
  the socket it is bound to. \<open>step\<close> is \<open>None\<close> when the event cannot happen in the state.
  The callback of the reconnect timer clears the handle and calls
  \<^verbatim>\<open>connectToWhatsApp\<close>; the callback of the attempt's timeout calls \<^verbatim>\<open>this.sock?.end\<close>
  when the service is connecting and not connected, upon which the socket reports
  \<^verbatim>\<open>close\<close> (a \<open>SocketUpdate\<close> of its own). The other listener a socket may have for
  \<^verbatim>\<open>connection.update\<close>, the wrapper of \<^verbatim>\<open>ConnectionUpdateHandler\<close>, only logs. The
  shutdown hook \<^verbatim>\<open>onModuleDestroy\<close> is not among the events.
\<close>

datatype event =
    TimerFires nat
  | LogoutSettled nat bool
  | AuthStateSettled auth_outcome
  | SocketUpdate nat ConnectionUpdate
  | RegistryModuleInit
  | ContactsSynced nat

definition run_callback :: "timer_callback \<Rightarrow> wa_world \<Rightarrow> wa_world" where
  "run_callback cb w =
     (case cb of
        ReconnectCallback \<Rightarrow> connectToWhatsApp (w\<lparr>reconnectTimeout := None\<rparr>)
      | ConnectionAttemptCallback \<Rightarrow> w
      | RegisterHandlersCallback \<Rightarrow> registerHandlers handlers w)"

definition listens :: "WASocket \<Rightarrow> bool" where
  "listens s = ((''connection.update'', InternalListener) \<in> set (ev s) \<and> \<not> closed s)"

definition listening :: "wa_world \<Rightarrow> nat \<Rightarrow> bool" where
  "listening w k = listens (sockets w k)"

definition mark_closed :: "nat \<Rightarrow> wa_world \<Rightarrow> wa_world" where
  "mark_closed k w = w\<lparr>sockets := (sockets w)(k := (sockets w k)\<lparr>closed := True\<rparr>)\<rparr>"

definition step :: "event \<Rightarrow> wa_world \<Rightarrow> wa_world option" where
  "step e w =
     (case e of
        TimerFires t \<Rightarrow>
          (case find (\<lambda>x. fst x = t) (timers w) of
             None \<Rightarrow> None
           | Some x \<Rightarrow> Some (run_callback (fst (snd x)) (w\<lparr>timers := remove1 x (timers w)\<rparr>)))
      | LogoutSettled k ok \<Rightarrow>
          (if AwaitLogout k \<in> set (pending w)
           then Some (after_logout ok (w\<lparr>pending := remove1 (AwaitLogout k) (pending w)\<rparr>))
           else None)
      | AuthStateSettled outcome \<Rightarrow>
          (if AwaitAuthState \<in> set (pending w)
           then Some (after_auth_state outcome
                        (w\<lparr>pending := remove1 AwaitAuthState (pending w)\<rparr>))
           else None)
      | SocketUpdate k update \<Rightarrow>
          (if listening w k
           then Some (on_connection_update update
                        (if connection update = ConnectionClose then mark_closed k w else w))
           else None)
      | RegistryModuleInit \<Rightarrow> Some (registerHandlers handlers w)
      | ContactsSynced n \<Rightarrow>
          (if sock w \<noteq> None \<and> store w \<noteq> None then Some (w\<lparr>store := Some n\<rparr>) else None))"

fun run :: "event list \<Rightarrow> wa_world \<Rightarrow> wa_world option" where
  "run [] w = Some w"
| "run (e # es) w = (case step e w of None \<Rightarrow> None | Some w' \<Rightarrow> run es w')"

text \<open>The state in which \<^verbatim>\<open>onModuleInit\<close> of the connection service finds the service, and
  the states reachable from its call of \<^verbatim>\<open>connectToWhatsApp\<close>.\<close>

definition initial_world :: wa_world where
  "initial_world =
     \<lparr>sock = None, store = None, isConnecting = False, connectionAttemptTimeout = None,
      reconnectTimeout = None, reconnectAttempts = 0,
      sockets = (\<lambda>k. \<lparr>user = False, ev = [], closed = True\<rparr>), next_sock = 0,
      timers = [], next_timer = 0, pending = []\<rparr>"

definition reachable :: "wa_world \<Rightarrow> bool" where
  "reachable w = (\<exists>es. run es (connectToWhatsApp initial_world) = Some w)"

text \<open>
  The reconnect timers that are armed, and the invariant of the reachable states: every
  armed reconnect timer is the one whose handle the service holds, and there is at most
  one; at most one invocation of \<^verbatim>\<open>connectToWhatsApp\<close> is suspended, and while one is, no
  reconnect timer is armed and no socket can report; a socket that can report is the
  current one.
\<close>

definition reconnect_timers :: "wa_world \<Rightarrow> (nat \<times> timer_callback \<times> int) list" where
  "reconnect_timers w = filter (\<lambda>x. fst (snd x) = ReconnectCallback) (timers w)"

definition timers_inv :: "wa_world \<Rightarrow> bool" where
  "timers_inv w =
     (length (reconnect_timers w) \<le> 1 \<and>
      (\<forall>x \<in> set (reconnect_timers w). reconnectTimeout w = Some (fst x)))"

definition wa_inv :: "wa_world \<Rightarrow> bool" where
  "wa_inv w =
     (timers_inv w \<and>
      length (pending w) \<le> 1 \<and>
      (pending w \<noteq> [] \<longrightarrow> reconnect_timers w = [] \<and> (\<forall>k. \<not> listening w k)) \<and>
      (\<forall>k. listening w k \<longrightarrow> sock w = Some k))"

text \<open>
  A second invariant of the reachable states, about the handle: while a reconnect timer is
  armed or a connect is suspended the handle is null; no connect is suspended at the
  logout of a previous socket (every reconnect starts from a null handle); and with a null
  handle the store is null or empty.
\<close>

definition handle_inv :: "wa_world \<Rightarrow> bool" where
  "handle_inv w =
     ((reconnect_timers w \<noteq> [] \<or> pending w \<noteq> [] \<longrightarrow> sock w = None) \<and>
      (\<forall>k. AwaitLogout k \<notin> set (pending w)) \<and>
      (sock w = None \<longrightarrow> store w = None \<or> store w = Some 0))"

subsection \<open>States and updates used as concrete inputs\<close>

definition open_update :: ConnectionUpdate where
  "open_update = \<lparr>connection = ConnectionOpen, statusCode = None\<rparr>"

definition close_update :: "nat option \<Rightarrow> ConnectionUpdate" where
  "close_update code = \<lparr>connection = ConnectionClose, statusCode = code\<rparr>"

text \<open>The state after start-up, the creation of socket 0 for a session that already has
  a user, and the socket's report of \<^verbatim>\<open>open\<close>.\<close>

definition opened_world :: wa_world where
  "opened_world =
     \<lparr>sock = Some 0, store = Some 0, isConnecting = False, connectionAttemptTimeout = None,
      reconnectTimeout = None, reconnectAttempts = 0,
      sockets = (\<lambda>k. \<lparr>user = False, ev = [], closed = True\<rparr>)
        (0 := \<lparr>user = True,
               ev = [(''connection.update'', InternalListener), (''creds.update'', SaveCreds)],
               closed = False\<rparr>),
      next_sock = 1, timers = [(1, RegisterHandlersCallback, 100)], next_timer = 2,
      pending = []\<rparr>"

section \<open>The broker connection service\<close>

text \<open>
  \<^verbatim>\<open>AmqpConnectionService\<close>: its five fields, and from the runtime the armed timers (all
  armed by \<^verbatim>\<open>scheduleReconnect\<close>), the invocations of \<^verbatim>\<open>connect\<close> suspended at
  \<^verbatim>\<open>await amqp.connect(...)\<close> or \<^verbatim>\<open>await this.connection.createChannel()\<close>, and the
  connection objects on which \<^verbatim>\<open>connect\<close> has registered its \<^verbatim>\<open>'error'\<close> and
  \<^verbatim>\<open>'close'\<close> listeners (they are never removed).
\<close>

datatype amqp_suspended = AwaitConnect | AwaitCreateChannel

record amqp_world =
  amqp_connection :: "nat option"
  amqp_channel :: "nat option"
  amqp_isConnecting :: bool
  amqp_reconnectAttempts :: nat
  amqp_reconnectTimeout :: "nat option"
  amqp_timers :: "(nat \<times> int) list"
  amqp_next_timer :: nat
  amqp_next_object :: nat
  amqp_pending :: "amqp_suspended list"
  amqp_listened :: "nat list"

definition amqp_isConnected :: "amqp_world \<Rightarrow> bool" where
  "amqp_isConnected a = (amqp_channel a \<noteq> None)"

definition amqp_clearReconnectTimeout :: "amqp_world \<Rightarrow> amqp_world" where
  "amqp_clearReconnectTimeout a =
     (case amqp_reconnectTimeout a of
        None \<Rightarrow> a
      | Some t \<Rightarrow> a\<lparr>amqp_timers := filter (\<lambda>x. fst x \<noteq> t) (amqp_timers a),
                    amqp_reconnectTimeout := None\<rparr>)"

definition amqp_scheduleReconnect :: "amqp_world \<Rightarrow> amqp_world" where
  "amqp_scheduleReconnect a =
     (if amqp_isConnecting a \<or> amqp_reconnectTimeout a \<noteq> None then a
      else
        (let delay = amqp_reconnect_delay (amqp_reconnectAttempts a);
             t = amqp_next_timer a
         in a\<lparr>amqp_timers := amqp_timers a @ [(t, delay)], amqp_next_timer := Suc t,
              amqp_reconnectTimeout := Some t\<rparr>))"

text \<open>\<^verbatim>\<open>connect\<close> up to \<^verbatim>\<open>await amqp.connect(this.amqpUrl)\<close>.\<close>

definition amqp_connect :: "amqp_world \<Rightarrow> amqp_world" where
  "amqp_connect a =
     (if amqp_isConnecting a then a
      else
        (let a1 = amqp_clearReconnectTimeout (a\<lparr>amqp_isConnecting := True\<rparr>)
         in a1\<lparr>amqp_pending := amqp_pending a1 @ [AwaitConnect]\<rparr>))"

text \<open>The \<^verbatim>\<open>catch\<close> of \<^verbatim>\<open>connect\<close>.\<close>

definition amqp_connect_failed :: "amqp_world \<Rightarrow> amqp_world" where
  "amqp_connect_failed a =
     amqp_scheduleReconnect
       (a\<lparr>amqp_channel := None, amqp_connection := None, amqp_isConnecting := False,
          amqp_reconnectAttempts := Suc (amqp_reconnectAttempts a)\<rparr>)"

text \<open>\<^verbatim>\<open>amqp.connect\<close> settled: the new connection is stored and \<^verbatim>\<open>createChannel\<close> is
  awaited, or the \<^verbatim>\<open>catch\<close> runs.\<close>

definition amqp_after_connect :: "bool \<Rightarrow> amqp_world \<Rightarrow> amqp_world" where
  "amqp_after_connect ok a =
     (if ok
      then a\<lparr>amqp_connection := Some (amqp_next_object a),
             amqp_next_object := Suc (amqp_next_object a),
             amqp_pending := amqp_pending a @ [AwaitCreateChannel]\<rparr>
      else amqp_connect_failed a)"

text \<open>
  \<^verbatim>\<open>createChannel\<close> settled. On success the channel is stored, the attempts are reset and
  the listeners are registered on \<^verbatim>\<open>this.connection\<close>, a TypeError caught by the
  \<^verbatim>\<open>catch\<close> if that field is null by now; then the flag is reset.
\<close>

definition amqp_after_createChannel :: "bool \<Rightarrow> amqp_world \<Rightarrow> amqp_world" where
  "amqp_after_createChannel ok a =
     (if ok
      then
        (let a1 = a\<lparr>amqp_channel := Some (amqp_next_object a),
                    amqp_next_object := Suc (amqp_next_object a),
                    amqp_reconnectAttempts := 0\<rparr>
         in case amqp_connection a1 of
              None \<Rightarrow> amqp_connect_failed a1
            | Some c \<Rightarrow> a1\<lparr>amqp_listened := amqp_listened a1 @ [c],
                           amqp_isConnecting := False\<rparr>)
      else amqp_connect_failed a)"

definition handleDisconnect :: "amqp_world \<Rightarrow> amqp_world" where
  "handleDisconnect a =
     (if \<not> amqp_isConnecting a \<and> (amqp_channel a \<noteq> None \<or> amqp_connection a \<noteq> None)
      then amqp_scheduleReconnect (a\<lparr>amqp_channel := None, amqp_connection := None\<rparr>)
      else a)"

datatype amqp_event =
    AmqpTimerFires nat
  | ConnectSettled bool
  | CreateChannelSettled bool
  | ConnectionError nat
  | ConnectionClosed nat

definition amqp_step :: "amqp_event \<Rightarrow> amqp_world \<Rightarrow> amqp_world option" where
  "amqp_step e a =
     (case e of
        AmqpTimerFires t \<Rightarrow>
          (case find (\<lambda>x. fst x = t) (amqp_timers a) of
             None \<Rightarrow> None
           | Some x \<Rightarrow>
               Some (amqp_connect
                       (a\<lparr>amqp_timers := remove1 x (amqp_timers a),
                          amqp_reconnectTimeout := None\<rparr>)))
      | ConnectSettled ok \<Rightarrow>
          (if AwaitConnect \<in> set (amqp_pending a)
           then Some (amqp_after_connect ok
                        (a\<lparr>amqp_pending := remove1 AwaitConnect (amqp_pending a)\<rparr>))
           else None)
      | CreateChannelSettled ok \<Rightarrow>
          (if AwaitCreateChannel \<in> set (amqp_pending a)
           then Some (amqp_after_createChannel ok
                        (a\<lparr>amqp_pending := remove1 AwaitCreateChannel (amqp_pending a)\<rparr>))
           else None)
      | ConnectionError c \<Rightarrow>
          (if c \<in> set (amqp_listened a) then Some (handleDisconnect a) else None)
      | ConnectionClosed c \<Rightarrow>
          (if c \<in> set (amqp_listened a)
           then Some (if \<not> amqp_isConnecting a \<and> amqp_connection a \<noteq> None
                      then handleDisconnect a else a)
           else None))"

fun amqp_run :: "amqp_event list \<Rightarrow> amqp_world \<Rightarrow> amqp_world option" where
  "amqp_run [] a = Some a"
| "amqp_run (e # es) a = (case amqp_step e a of None \<Rightarrow> None | Some a' \<Rightarrow> amqp_run es a')"

definition amqp_initial :: amqp_world where
  "amqp_initial =
     \<lparr>amqp_connection = None, amqp_channel = None, amqp_isConnecting = False,
      amqp_reconnectAttempts = 0, amqp_reconnectTimeout = None, amqp_timers = [],
      amqp_next_timer = 0, amqp_next_object = 0, amqp_pending = [], amqp_listened = []\<rparr>"

definition amqp_reachable :: "amqp_world \<Rightarrow> bool" where
  "amqp_reachable a = (\<exists>es. amqp_run es (amqp_connect amqp_initial) = Some a)"

text \<open>The invariant of the reachable states: at most one timer is armed and it is the one
  whose handle the service holds; at most one invocation of \<^verbatim>\<open>connect\<close> is suspended, and
  while one is, the flag is set and no timer is armed; while the flag is set or a timer is
  armed there is no channel.\<close>

definition amqp_inv :: "amqp_world \<Rightarrow> bool" where
  "amqp_inv a =
     (length (amqp_timers a) \<le> 1 \<and>
      (\<forall>x \<in> set (amqp_timers a). amqp_reconnectTimeout a = Some (fst x)) \<and>
      length (amqp_pending a) \<le> 1 \<and>
      (amqp_pending a \<noteq> [] \<longrightarrow> amqp_isConnecting a \<and> amqp_timers a = []) \<and>
      (amqp_isConnecting a \<or> amqp_timers a \<noteq> [] \<longrightarrow> amqp_channel a = None))"

section \<open>JavaScript values\<close>

text \<open>
  The fields read from a parsed JSON payload or from a decoded gateway message are
  dynamically typed. \<open>jval\<close> keeps the cases the code distinguishes: \<^verbatim>\<open>undefined\<close>
  (a missing field, or an optional chain \<^verbatim>\<open>a?.b\<close> cut short), \<^verbatim>\<open>null\<close>, booleans,
  numbers and strings. \<open>truthy\<close> is JavaScript's \<^verbatim>\<open>ToBoolean\<close> on these, and
  \<open>js_or\<close> is the operator \<^verbatim>\<open>||\<close>, which returns its left operand when that is
  truthy and its right operand otherwise.
\<close>

datatype jval = JUndefined | JNull | JBool bool | JNum int | JStr string

fun truthy :: "jval \<Rightarrow> bool" where
  "truthy JUndefined = False"
| "truthy JNull = False"
| "truthy (JBool b) = b"
| "truthy (JNum n) = (n \<noteq> 0)"
| "truthy (JStr s) = (s \<noteq> [])"

definition js_or :: "jval \<Rightarrow> jval \<Rightarrow> jval" where
  "js_or a b = (if truthy a then a else b)"

section \<open>Recipient formatting of the sender service\<close>

text \<open>\<^verbatim>\<open>WhatsappSenderService.getFormattedJid\<close>.\<close>

definition getFormattedJid :: "string \<Rightarrow> string" where
  "getFormattedJid t =
     (if CHR ''@'' \<in> set t then t
      else if length t < 14 then t @ ''@s.whatsapp.net''
      else t @ ''@g.us'')"

section \<open>The outbound consumer\<close>

text \<open>
  \<^verbatim>\<open>WhatsappSendCommandConsumer.handleMessage\<close>. A delivery is modelled by what
  \<^verbatim>\<open>JSON.parse(msg.content.toString())\<close> makes of its body: it throws, it yields
  \<^verbatim>\<open>null\<close>, or it yields a value whose fields \<^verbatim>\<open>to\<close>, \<^verbatim>\<open>text\<close> and
  \<^verbatim>\<open>correlationId\<close> are read (a JSON number, string, boolean or array has none of the
  three, which is \<open>Parsed\<close> with three \<open>JUndefined\<close>). A field whose value is itself an
  array or an object is not represented.
\<close>

record MessageContent =
  to :: jval
  "text" :: jval
  correlationId :: jval

datatype parsed = ParseError | ParsedNull | Parsed MessageContent

record ConsumeMessage =
  content :: parsed
  properties_correlationId :: jval

text \<open>
  What the method does not decide itself is its environment. The field
  \<^verbatim>\<open>this.channel\<close> is null or a channel; \<^verbatim>\<open>ack\<close> and \<^verbatim>\<open>nack\<close> on a channel
  either take effect or throw (the method's last \<^verbatim>\<open>try\<close>/\<^verbatim>\<open>catch (nackErr)\<close> is
  there for the throw), which the model ties to the channel being open or closed. The
  method suspends once, at \<^verbatim>\<open>await this.messageSender.sendMessage(...)\<close>; the field can
  only change there, so the environment gives its value before and after the suspension.
  The sender is the injected \<^verbatim>\<open>IMessageSender\<close>: the answer of \<^verbatim>\<open>isConnected()\<close>, and
  a promise from \<^verbatim>\<open>sendMessage\<close> that resolves to a boolean or rejects.
\<close>

datatype Channel = ChannelOpen | ChannelClosed

datatype send_result = Resolves bool | Rejects

record consumer_env =
  channel :: "Channel option"
  channel_after_await :: "Channel option"
  messageSender_isConnected :: bool
  messageSender_sendMessage :: send_result
  uuid :: string

text \<open>
  The trace of a run: the call of \<^verbatim>\<open>JSON.parse\<close>, the calls made on the sender, and each
  call made on the channel with whether it took effect (\<open>Acked\<close>, \<open>Nacked requeue\<close>) or
  threw.
\<close>

datatype effect =
    JsonParseCalled
  | IsConnectedCalled
  | SendMessageCalled string jval jval
  | Acked
  | Nacked bool
  | AckThrew
  | NackThrew bool

datatype completion = Returns | Throws "Channel option"

fun ack :: "Channel \<Rightarrow> effect" where
  "ack ChannelOpen = Acked"
| "ack ChannelClosed = AckThrew"

fun nack :: "Channel \<Rightarrow> bool \<Rightarrow> effect" where
  "nack ChannelOpen requeue = Nacked requeue"
| "nack ChannelClosed requeue = NackThrew requeue"

text \<open>
  A channel call inside the outer \<^verbatim>\<open>try\<close>: when it throws, control passes to the outer
  \<^verbatim>\<open>catch\<close>, which reads \<^verbatim>\<open>this.channel\<close> again (\<open>Throws\<close> carries that value).
\<close>

definition call_in_try :: "Channel \<Rightarrow> effect \<Rightarrow> effect list \<times> completion" where
  "call_in_try ch ef =
     (case ch of ChannelOpen \<Rightarrow> ([ef], Returns) | ChannelClosed \<Rightarrow> ([ef], Throws (Some ch)))"

text \<open>Lines 203 to 291, the body of the outer \<^verbatim>\<open>try\<close> (the call of \<^verbatim>\<open>JSON.parse\<close>
  that opens it is recorded by \<open>handleMessage\<close> below).\<close>

definition try_block :: "consumer_env \<Rightarrow> ConsumeMessage \<Rightarrow> effect list \<times> completion" where
  "try_block e msg =
     (case content msg of
        ParseError \<Rightarrow>
          \<comment> \<open>\<^verbatim>\<open>this.channel?.nack(msg, false, false); return;\<close>\<close>
          (case channel e of
             None \<Rightarrow> ([], Returns)
           | Some ch \<Rightarrow> call_in_try ch (nack ch False))
      | ParsedNull \<Rightarrow>
          \<comment> \<open>\<^verbatim>\<open>content?.correlationId\<close> is undefined; \<^verbatim>\<open>content.to\<close> is a TypeError\<close>
          (case channel e of
             None \<Rightarrow> ([], Returns)
           | Some ch \<Rightarrow> ([], Throws (Some ch)))
      | Parsed c \<Rightarrow>
          (let cid = js_or (correlationId c)
                       (js_or (properties_correlationId msg) (JStr (''gen-'' @ uuid e)))
           in case channel e of
             None \<Rightarrow> ([], Returns)
           | Some ch \<Rightarrow>
               if \<not> truthy (to c) \<or> \<not> truthy (text c) then call_in_try ch (nack ch False)
               else if \<not> messageSender_isConnected e then
                 (let (tr, k) = call_in_try ch (nack ch True) in (IsConnectedCalled # tr, k))
               else
                 (case to c of
                    JStr s \<Rightarrow>
                      (let formattedTo = (if CHR ''@'' \<in> set s then s else s @ ''@s.whatsapp.net'');
                           calls = [IsConnectedCalled, SendMessageCalled formattedTo (text c) cid]
                       in case messageSender_sendMessage e of
                            Rejects \<Rightarrow> (calls, Throws (channel_after_await e))
                          | Resolves sent \<Rightarrow>
                              (case channel_after_await e of
                                 None \<Rightarrow> (calls, Throws None)
                               | Some ch' \<Rightarrow>
                                   (let (tr, k) = call_in_try ch'
                                                    (if sent then ack ch' else nack ch' False)
                                    in (calls @ tr, k))))
                  | _ \<Rightarrow>
                      \<comment> \<open>\<^verbatim>\<open>content.to.includes\<close> is not a function\<close>
                      ([IsConnectedCalled], Throws (Some ch)))))"

text \<open>Lines 292 to 335, the outer \<^verbatim>\<open>catch\<close>: a reject without requeue when the field holds a
  channel, itself inside a \<^verbatim>\<open>try\<close> whose \<^verbatim>\<open>catch\<close> only logs.\<close>

definition catch_block :: "Channel option \<Rightarrow> effect list" where
  "catch_block chan = (case chan of None \<Rightarrow> [] | Some ch \<Rightarrow> [nack ch False])"

definition handleMessage :: "consumer_env \<Rightarrow> ConsumeMessage option \<Rightarrow> effect list" where
  "handleMessage e m =
     (case m of
        None \<Rightarrow> []
      | Some msg \<Rightarrow>
          JsonParseCalled #
          (case try_block e msg of
             (tr, Returns) \<Rightarrow> tr
           | (tr, Throws chan) \<Rightarrow> tr @ catch_block chan))"

text \<open>The delivery outcomes in a trace, and the calls on the sender in it.\<close>

fun is_settlement :: "effect \<Rightarrow> bool" where
  "is_settlement Acked = True"
| "is_settlement (Nacked requeue) = True"
| "is_settlement ef = False"

definition settlements :: "effect list \<Rightarrow> effect list" where
  "settlements tr = filter is_settlement tr"

fun is_send :: "effect \<Rightarrow> bool" where
  "is_send (SendMessageCalled t x cid) = True"
| "is_send ef = False"

definition sends :: "effect list \<Rightarrow> effect list" where
  "sends tr = filter is_send tr"

fun recipient_of :: "effect \<Rightarrow> string option" where
  "recipient_of (SendMessageCalled t x cid) = Some t"
| "recipient_of ef = None"

definition recipients :: "effect list \<Rightarrow> string list" where
  "recipients tr = List.map_filter recipient_of tr"

subsection \<open>Deliveries and environments used as concrete inputs\<close>

text \<open>
  The payload \<^verbatim>\<open>{"to": t, "text": x}\<close>, the payload \<^verbatim>\<open>not-json\<close>, and an environment in
  which the channel is open before and after the send, the gateway is connected and the
  sender reports success.
\<close>

definition connected_env :: consumer_env where
  "connected_env =
     \<lparr>channel = Some ChannelOpen, channel_after_await = Some ChannelOpen,
      messageSender_isConnected = True, messageSender_sendMessage = Resolves True,
      uuid = ''0b0e''\<rparr>"

definition send_command :: "string \<Rightarrow> string \<Rightarrow> ConsumeMessage" where
  "send_command t x =
     \<lparr>content = Parsed \<lparr>to = JStr t, text = JStr x, correlationId = JUndefined\<rparr>,
      properties_correlationId = JUndefined\<rparr>"

definition not_json :: ConsumeMessage where
  "not_json = \<lparr>content = ParseError, properties_correlationId = JUndefined\<rparr>"


section \<open>The inbound message handler\<close>

text \<open>
  \<^verbatim>\<open>MessagesUpsertHandler\<close>. The fields of a gateway message that the handler reads are
  optional protobuf fields: a string, boolean or enum number, or null/undefined (\<open>None\<close>).
  A text candidate such as \<^verbatim>\<open>message.message?.extendedTextMessage?.text\<close> is \<open>None\<close>
  when any link of the optional chain is missing. \<open>str_truthy\<close> is JavaScript's truth
  test on such a string and \<open>str_or\<close> the operator \<^verbatim>\<open>||\<close> on two of them.
\<close>

record WAMessage =
  key_id :: "string option"
  key_remoteJid :: "string option"
  key_fromMe :: "bool option"
  messageStubType :: "nat option"
  broadcast :: "bool option"
  pushName :: "string option"
  messageTimestamp :: "nat option"
  conversation :: "string option"
  extendedTextMessage_text :: "string option"
  buttonsResponseMessage_selectedDisplayText :: "string option"
  listResponseMessage_title :: "string option"

record MessagesUpsertPayload =
  messages :: "WAMessage list"
  upsert_type :: string

definition str_truthy :: "string option \<Rightarrow> bool" where
  "str_truthy a = (case a of None \<Rightarrow> False | Some s \<Rightarrow> s \<noteq> [])"

definition str_or :: "string option \<Rightarrow> string option \<Rightarrow> string option" where
  "str_or a b = (if str_truthy a then a else b)"

definition isFilteredMessage :: "WAMessage \<Rightarrow> MessagesUpsertPayload \<Rightarrow> string option" where
  "isFilteredMessage message payload =
     (if key_fromMe message = Some True then Some ''fromMe''
      else if upsert_type payload \<noteq> ''notify'' then Some ''type is not notify''
      else if \<not> str_truthy (key_remoteJid message) then Some ''remoteJid is missing''
      else if key_remoteJid message = Some ''status@broadcast''
        then Some ''remoteJid is status@broadcast''
      else if (case messageStubType message of None \<Rightarrow> False | Some n \<Rightarrow> n \<noteq> 0)
        then Some ''messageStubType''
      else if broadcast message = Some True then Some ''broadcast''
      else None)"

text \<open>
  \<^verbatim>\<open>String.prototype.trim\<close> removes white space and line terminators from both ends; of
  the characters a \<open>char\<close> can hold these are tab, line feed, vertical tab, form feed,
  carriage return, space and no-break space.
\<close>

definition js_whitespace :: "char \<Rightarrow> bool" where
  "js_whitespace c = (of_char c \<in> {9, 10, 11, 12, 13, 32, 160 :: nat})"

definition trim :: "string \<Rightarrow> string" where
  "trim s = rev (dropWhile js_whitespace (rev (dropWhile js_whitespace s)))"

text \<open>Lines 71 to 75: the candidates in the order of the \<^verbatim>\<open>||\<close> chain, which associates
  to the left.\<close>

definition text_candidates :: "WAMessage \<Rightarrow> string option list" where
  "text_candidates message =
     [conversation message, extendedTextMessage_text message,
      buttonsResponseMessage_selectedDisplayText message, listResponseMessage_title message]"

definition messageText :: "WAMessage \<Rightarrow> string option" where
  "messageText message =
     str_or (str_or (str_or (conversation message) (extendedTextMessage_text message))
               (buttonsResponseMessage_selectedDisplayText message))
       (listResponseMessage_title message)"

record messageData =
  data_correlationId :: string
  waMessageId :: string
  waTimestamp :: "nat option"
  data_from :: string
  data_pushName :: string
  data_text :: string

datatype disposition = Ignored string | Unparseable | Publish messageData

text \<open>
  One turn of the loop of \<^verbatim>\<open>handle\<close>, for one message of the batch; \<open>u\<close> is the
  result of \<^verbatim>\<open>uuidv4()\<close> in that turn and \<open>cid\<close> the local \<^verbatim>\<open>correlationId\<close>. \<open>Publish d\<close> is the call
  \<^verbatim>\<open>messagePublisher.publish(this.receivedQueue, d)\<close>, whose failure is caught and logged;
  the other two are the two \<^verbatim>\<open>continue\<close> statements.
\<close>

definition handle_one :: "string \<Rightarrow> MessagesUpsertPayload \<Rightarrow> WAMessage \<Rightarrow> disposition" where
  "handle_one u payload message =
     (let msgId = (case key_id message of
                     None \<Rightarrow> ''unknown-wa-id''
                   | Some i \<Rightarrow> if i \<noteq> [] then i else ''unknown-wa-id'');
          cid = ''wa-in-'' @ msgId @ ''-'' @ take 8 u
      in case isFilteredMessage message payload of
           Some criteria \<Rightarrow> Ignored criteria
         | None \<Rightarrow>
             (case (key_remoteJid message, messageText message) of
                (Some sender, Some t) \<Rightarrow>
                  if sender = [] \<or> trim t = [] then Unparseable
                  else Publish
                    \<lparr>data_correlationId = cid, waMessageId = msgId,
                     waTimestamp = messageTimestamp message, data_from = sender,
                     data_pushName = (case pushName message of
                                        None \<Rightarrow> ''Unknown''
                                      | Some n \<Rightarrow> if n \<noteq> [] then n else ''Unknown''),
                     data_text = t\<rparr>
              | _ \<Rightarrow> Unparseable))"

definition handle :: "(nat \<Rightarrow> string) \<Rightarrow> MessagesUpsertPayload \<Rightarrow> disposition list" where
  "handle uuidv4 payload =
     map (\<lambda>(i, message). handle_one (uuidv4 i) payload message)
       (enumerate 0 (messages payload))"

definition blank :: "string option \<Rightarrow> bool" where
  "blank a = (case a of None \<Rightarrow> True | Some s \<Rightarrow> trim s = [])"

definition text_message :: WAMessage where
  "text_message =
     \<lparr>key_id = Some ''3EB0'', key_remoteJid = Some ''5511999999999@s.whatsapp.net'',
      key_fromMe = Some False, messageStubType = None, broadcast = None,
      pushName = Some ''Ana'', messageTimestamp = Some 1700000000,
      conversation = Some ''hello'', extendedTextMessage_text = Some ''quoted'',
      buttonsResponseMessage_selectedDisplayText = None, listResponseMessage_title = None\<rparr>"

section \<open>Properties\<close>

subsection \<open>Backoff\<close>

lemma pow2_ge_16: "4 \<le> n \<Longrightarrow> (16::int) \<le> 2 ^ n"
proof -
  assume "4 \<le> n"
  then have "(2::int) ^ 4 \<le> 2 ^ n"
    by (intro power_increasing) simp_all
  then show ?thesis by simp
qed

lemma wa_delay_clamped: "4 \<le> n \<Longrightarrow> wa_reconnect_delay n = 60000"
  using pow2_ge_16 [of n]
  by (simp add: wa_reconnect_delay_def INITIAL_RECONNECT_DELAY_def RECONNECT_FACTOR_def
      MAX_RECONNECT_DELAY_def)

lemma amqp_delay_clamped: "4 \<le> n \<Longrightarrow> amqp_reconnect_delay n = 60000"
  using pow2_ge_16 [of n]
  by (simp add: amqp_reconnect_delay_def AMQP_INITIAL_RECONNECT_DELAY_def
      AMQP_RECONNECT_FACTOR_def AMQP_MAX_RECONNECT_DELAY_def)


lemma scheduleReconnect_arms:
  "\<not> isConnecting w \<Longrightarrow> reconnectTimeout w = None \<Longrightarrow>
   timers (scheduleReconnect w) =
     timers w @ [(next_timer w, ReconnectCallback, wa_reconnect_delay (reconnectAttempts w))]"
  by (simp add: scheduleReconnect_def setTimeout_def Let_def)

lemma amqp_scheduleReconnect_arms:
  "\<not> amqp_isConnecting a \<Longrightarrow> amqp_reconnectTimeout a = None \<Longrightarrow>
   amqp_timers (amqp_scheduleReconnect a) =
     amqp_timers a @ [(amqp_next_timer a, amqp_reconnect_delay (amqp_reconnectAttempts a))]"
  by (simp add: amqp_scheduleReconnect_def Let_def)

text \<open>
  C7. For every attempt count \<open>n\<close> the delay of both connection services is
  \<open>min (5000 * 2 ^ n) 60000\<close>: 5000, 10000, 20000, 40000 for the attempts 0 to 3, and
  exactly 60000 from attempt 4 on; and this is the delay of the timer that
  \<^verbatim>\<open>scheduleReconnect\<close> arms.
\<close>

theorem reconnect_delay_backoff:
  "wa_reconnect_delay n = min (5000 * 2 ^ n) 60000 \<and>
   amqp_reconnect_delay n = min (5000 * 2 ^ n) 60000 \<and>
   map wa_reconnect_delay [0, 1, 2, 3] = [5000, 10000, 20000, 40000] \<and>
   map amqp_reconnect_delay [0, 1, 2, 3] = [5000, 10000, 20000, 40000] \<and>
   (4 \<le> n \<longrightarrow> wa_reconnect_delay n = 60000 \<and> amqp_reconnect_delay n = 60000) \<and>
   (\<not> isConnecting w \<and> reconnectTimeout w = None \<longrightarrow>
      timers (scheduleReconnect w) =
        timers w @ [(next_timer w, ReconnectCallback, wa_reconnect_delay (reconnectAttempts w))]) \<and>
   (\<not> amqp_isConnecting a \<and> amqp_reconnectTimeout a = None \<longrightarrow>
      amqp_timers (amqp_scheduleReconnect a) =
        amqp_timers a @ [(amqp_next_timer a, amqp_reconnect_delay (amqp_reconnectAttempts a))])"
proof (intro conjI impI)
  show "wa_reconnect_delay n = min (5000 * 2 ^ n) 60000"
    by (simp add: wa_reconnect_delay_def INITIAL_RECONNECT_DELAY_def RECONNECT_FACTOR_def
        MAX_RECONNECT_DELAY_def)
  show "amqp_reconnect_delay n = min (5000 * 2 ^ n) 60000"
    by (simp add: amqp_reconnect_delay_def AMQP_INITIAL_RECONNECT_DELAY_def
        AMQP_RECONNECT_FACTOR_def AMQP_MAX_RECONNECT_DELAY_def)
  show "map wa_reconnect_delay [0, 1, 2, 3] = [5000, 10000, 20000, 40000]"
    by (simp add: wa_reconnect_delay_def INITIAL_RECONNECT_DELAY_def RECONNECT_FACTOR_def
        MAX_RECONNECT_DELAY_def)
  show "map amqp_reconnect_delay [0, 1, 2, 3] = [5000, 10000, 20000, 40000]"
    by (simp add: amqp_reconnect_delay_def AMQP_INITIAL_RECONNECT_DELAY_def
        AMQP_RECONNECT_FACTOR_def AMQP_MAX_RECONNECT_DELAY_def)
next
  assume "4 \<le> n"
  then show "wa_reconnect_delay n = 60000" by (rule wa_delay_clamped)
next
  assume "4 \<le> n"
  then show "amqp_reconnect_delay n = 60000" by (rule amqp_delay_clamped)
next
  assume "\<not> isConnecting w \<and> reconnectTimeout w = None"
  then show "timers (scheduleReconnect w) =
      timers w @ [(next_timer w, ReconnectCallback, wa_reconnect_delay (reconnectAttempts w))]"
    by (simp add: scheduleReconnect_arms)
next
  assume "\<not> amqp_isConnecting a \<and> amqp_reconnectTimeout a = None"
  then show "amqp_timers (amqp_scheduleReconnect a) =
      amqp_timers a @ [(amqp_next_timer a, amqp_reconnect_delay (amqp_reconnectAttempts a))]"
    by (simp add: amqp_scheduleReconnect_arms)
qed

text \<open>Attempt 7, and the first reconnect scheduled by a service that has failed four times.\<close>

theorem reconnect_delay_backoff_witness:
  "(4::nat) \<le> 7 \<and> wa_reconnect_delay 7 = 60000 \<and> amqp_reconnect_delay 7 = 60000 \<and>
   timers (scheduleReconnect (initial_world\<lparr>reconnectAttempts := 4\<rparr>)) =
     [(0, ReconnectCallback, 60000)]"
proof -
  note th = reconnect_delay_backoff [of 7 "initial_world\<lparr>reconnectAttempts := 4\<rparr>"]
  have h: "\<not> isConnecting (initial_world\<lparr>reconnectAttempts := 4\<rparr>) \<and>
      reconnectTimeout (initial_world\<lparr>reconnectAttempts := 4\<rparr>) = None"
    by (simp add: initial_world_def)
  have d: "wa_reconnect_delay 4 = 60000"
    using reconnect_delay_backoff [of 4] by simp
  have t: "timers (scheduleReconnect (initial_world\<lparr>reconnectAttempts := 4\<rparr>)) =
      timers (initial_world\<lparr>reconnectAttempts := 4\<rparr>) @
        [(next_timer (initial_world\<lparr>reconnectAttempts := 4\<rparr>), ReconnectCallback,
          wa_reconnect_delay (reconnectAttempts (initial_world\<lparr>reconnectAttempts := 4\<rparr>)))]"
    by (rule th [THEN conjunct2, THEN conjunct2, THEN conjunct2, THEN conjunct2, THEN conjunct2,
          THEN conjunct1, THEN mp, OF h])
  from th have c: "wa_reconnect_delay 7 = 60000 \<and> amqp_reconnect_delay 7 = 60000" by simp
  from c t d show ?thesis by (simp add: initial_world_def)
qed

subsection \<open>The outbound consumer, branch by branch\<close>

lemma handleMessage_no_channel:
  "channel e = None \<Longrightarrow> handleMessage e (Some msg) = [JsonParseCalled]"
  by (simp add: handleMessage_def try_block_def Let_def split: parsed.splits)

lemma settled_call_nack:
  "(case call_in_try ch (nack ch r) of (tr, Returns) \<Rightarrow> tr | (tr, Throws chan) \<Rightarrow> tr @ catch_block chan)
   = (case ch of ChannelOpen \<Rightarrow> [Nacked r] | ChannelClosed \<Rightarrow> [NackThrew r, NackThrew False])"
  by (cases ch) (simp_all add: call_in_try_def catch_block_def)

lemma handleMessage_ParseError:
  "content msg = ParseError \<Longrightarrow> channel e = Some ch \<Longrightarrow>
   handleMessage e (Some msg) =
     JsonParseCalled # (case ch of ChannelOpen \<Rightarrow> [Nacked False] | ChannelClosed \<Rightarrow> [NackThrew False, NackThrew False])"
  by (simp add: handleMessage_def try_block_def settled_call_nack)

lemma handleMessage_ParsedNull:
  "content msg = ParsedNull \<Longrightarrow> channel e = Some ch \<Longrightarrow>
   handleMessage e (Some msg) = [JsonParseCalled, nack ch False]"
  by (simp add: handleMessage_def try_block_def catch_block_def)

lemma handleMessage_invalid:
  "content msg = Parsed c \<Longrightarrow> channel e = Some ch \<Longrightarrow> \<not> truthy (to c) \<or> \<not> truthy (text c) \<Longrightarrow>
   handleMessage e (Some msg) =
     JsonParseCalled # (case ch of ChannelOpen \<Rightarrow> [Nacked False] | ChannelClosed \<Rightarrow> [NackThrew False, NackThrew False])"
  by (simp add: handleMessage_def try_block_def settled_call_nack Let_def)

lemma handleMessage_disconnected:
  "content msg = Parsed c \<Longrightarrow> channel e = Some ch \<Longrightarrow> truthy (to c) \<Longrightarrow> truthy (text c) \<Longrightarrow>
   \<not> messageSender_isConnected e \<Longrightarrow>
   handleMessage e (Some msg) =
     JsonParseCalled # IsConnectedCalled #
       (case ch of ChannelOpen \<Rightarrow> [Nacked True] | ChannelClosed \<Rightarrow> [NackThrew True, NackThrew False])"
  by (cases ch) (simp_all add: handleMessage_def try_block_def call_in_try_def catch_block_def Let_def)

lemma handleMessage_to_not_string:
  "content msg = Parsed c \<Longrightarrow> channel e = Some ch \<Longrightarrow> truthy (to c) \<Longrightarrow> truthy (text c) \<Longrightarrow>
   messageSender_isConnected e \<Longrightarrow> \<forall>s. to c \<noteq> JStr s \<Longrightarrow>
   handleMessage e (Some msg) = [JsonParseCalled, IsConnectedCalled, nack ch False]"
  by (cases "to c") (simp_all add: handleMessage_def try_block_def catch_block_def Let_def)

lemma handleMessage_send:
  "content msg = Parsed c \<Longrightarrow> channel e = Some ch \<Longrightarrow> to c = JStr s \<Longrightarrow> s \<noteq> [] \<Longrightarrow> truthy (text c) \<Longrightarrow>
   messageSender_isConnected e \<Longrightarrow>
   handleMessage e (Some msg) =
     [JsonParseCalled, IsConnectedCalled,
      SendMessageCalled (if CHR ''@'' \<in> set s then s else s @ ''@s.whatsapp.net'') (text c)
        (js_or (correlationId c) (js_or (properties_correlationId msg) (JStr (''gen-'' @ uuid e))))] @
     (case messageSender_sendMessage e of
        Rejects \<Rightarrow> catch_block (channel_after_await e)
      | Resolves sent \<Rightarrow>
          (case channel_after_await e of
             None \<Rightarrow> []
           | Some ChannelOpen \<Rightarrow> [if sent then Acked else Nacked False]
           | Some ChannelClosed \<Rightarrow> [if sent then AckThrew else NackThrew False, NackThrew False]))"
  apply (simp add: handleMessage_def try_block_def Let_def)
  apply (cases "messageSender_sendMessage e"; cases "channel_after_await e")
  apply (simp_all add: catch_block_def)
  subgoal for sent ch' by (cases ch'; cases sent) (simp_all add: call_in_try_def catch_block_def)
  done

text \<open>The trace after the sender answered, whatever the answer: at most one outcome.\<close>

lemma after_send_at_most_one:
  "length (settlements
     (case sr of
        Rejects \<Rightarrow> catch_block ca
      | Resolves sent \<Rightarrow>
          (case ca of
             None \<Rightarrow> []
           | Some ChannelOpen \<Rightarrow> [if sent then Acked else Nacked False]
           | Some ChannelClosed \<Rightarrow> [if sent then AckThrew else NackThrew False, NackThrew False]))) \<le> 1"
  by (cases sr; cases ca) (auto simp: settlements_def catch_block_def split: Channel.splits)

lemma after_send_exactly_one:
  "length (settlements
     (case sr of
        Rejects \<Rightarrow> catch_block (Some ChannelOpen)
      | Resolves sent \<Rightarrow> [if sent then Acked else Nacked False])) = 1"
  by (cases sr) (auto simp: settlements_def catch_block_def)

lemma handleMessage_at_most_one:
  "length (settlements (handleMessage e (Some msg))) \<le> 1"
proof (cases "channel e")
  case None
  then show ?thesis by (simp add: handleMessage_no_channel settlements_def)
next
  case (Some ch)
  show ?thesis
  proof (cases "content msg")
    case ParseError
    with Some show ?thesis
      by (cases ch) (simp_all add: handleMessage_ParseError settlements_def)
  next
    case ParsedNull
    with Some show ?thesis
      by (cases ch) (simp_all add: handleMessage_ParsedNull settlements_def)
  next
    case (Parsed c)
    show ?thesis
    proof (cases "truthy (to c) \<and> truthy (text c)")
      case False
      then have "\<not> truthy (to c) \<or> \<not> truthy (text c)" by simp
      from handleMessage_invalid [OF Parsed Some this] show ?thesis
        by (cases ch) (simp_all add: settlements_def)
    next
      case valid: True
      show ?thesis
      proof (cases "messageSender_isConnected e")
        case False
        with valid handleMessage_disconnected [OF Parsed Some] show ?thesis
          by (cases ch) (simp_all add: settlements_def)
      next
        case True
        show ?thesis
        proof (cases "\<exists>s. to c = JStr s")
          case False
          then have "\<forall>s. to c \<noteq> JStr s" by simp
          with valid True handleMessage_to_not_string [OF Parsed Some] show ?thesis
            by (cases ch) (simp_all add: settlements_def)
        next
          case str: True
          then obtain s where s: "to c = JStr s" by blast
          with valid have ne: "s \<noteq> []" by simp
          from valid have tx: "truthy (text c)" by simp
          show ?thesis
            unfolding handleMessage_send [OF Parsed Some s ne tx True]
            using after_send_at_most_one [where sr = "messageSender_sendMessage e" and ca = "channel_after_await e"]
            by (simp add: settlements_def)
        qed
      qed
    qed
  qed
qed

lemma handleMessage_exactly_one:
  assumes o1: "channel e = Some ChannelOpen" and o2: "channel_after_await e = Some ChannelOpen"
  shows "length (settlements (handleMessage e (Some msg))) = 1"
proof (cases "content msg")
  case ParseError
  with o1 show ?thesis by (simp add: handleMessage_ParseError settlements_def)
next
  case ParsedNull
  with o1 show ?thesis by (simp add: handleMessage_ParsedNull settlements_def)
next
  case (Parsed c)
  show ?thesis
  proof (cases "truthy (to c) \<and> truthy (text c)")
    case False
    then have "\<not> truthy (to c) \<or> \<not> truthy (text c)" by simp
    from handleMessage_invalid [OF Parsed o1 this] show ?thesis
      by (simp add: settlements_def)
  next
    case valid: True
    show ?thesis
    proof (cases "messageSender_isConnected e")
      case False
      with valid handleMessage_disconnected [OF Parsed o1] show ?thesis
        by (simp add: settlements_def)
    next
      case True
      show ?thesis
      proof (cases "\<exists>s. to c = JStr s")
        case False
        then have "\<forall>s. to c \<noteq> JStr s" by simp
        with valid True handleMessage_to_not_string [OF Parsed o1] show ?thesis
          by (simp add: settlements_def)
      next
        case str: True
        then obtain s where s: "to c = JStr s" by blast
        with valid have ne: "s \<noteq> []" by simp
        from valid have tx: "truthy (text c)" by simp
        show ?thesis
          unfolding handleMessage_send [OF Parsed o1 s ne tx True]
          using after_send_exactly_one [where sr = "messageSender_sendMessage e"]
          by (simp add: settlements_def o2 split: send_result.splits)
      qed
    qed
  qed
qed

lemma at_most_one_distinct:
  "length xs \<le> 1 \<Longrightarrow> x \<in> set xs \<Longrightarrow> y \<in> set xs \<Longrightarrow> x = y"
  by (cases xs) auto

lemma handleMessage_lost_before_send:
  assumes lost: "channel e \<noteq> Some ChannelOpen" and ns: "sends (handleMessage e (Some msg)) = []"
  shows "settlements (handleMessage e (Some msg)) = []"
proof (cases "channel e")
  case None
  then show ?thesis by (simp add: handleMessage_no_channel settlements_def)
next
  case (Some ch)
  with lost have ch: "ch = ChannelClosed" by (cases ch) simp_all
  show ?thesis
  proof (cases "content msg")
    case ParseError
    with Some ch show ?thesis by (simp add: handleMessage_ParseError settlements_def)
  next
    case ParsedNull
    with Some ch show ?thesis by (simp add: handleMessage_ParsedNull settlements_def)
  next
    case (Parsed c)
    show ?thesis
    proof (cases "truthy (to c) \<and> truthy (text c)")
      case False
      then have "\<not> truthy (to c) \<or> \<not> truthy (text c)" by simp
      from handleMessage_invalid [OF Parsed Some this] ch show ?thesis
        by (simp add: settlements_def)
    next
      case valid: True
      show ?thesis
      proof (cases "messageSender_isConnected e")
        case False
        with valid handleMessage_disconnected [OF Parsed Some] ch show ?thesis
          by (simp add: settlements_def)
      next
        case True
        show ?thesis
        proof (cases "\<exists>s. to c = JStr s")
          case False
          then have "\<forall>s. to c \<noteq> JStr s" by simp
          with valid True handleMessage_to_not_string [OF Parsed Some] ch show ?thesis
            by (simp add: settlements_def)
        next
          case str: True
          then obtain s where s: "to c = JStr s" by blast
          with valid have ne: "s \<noteq> []" by simp
          from valid have tx: "truthy (text c)" by simp
          from ns have False
            unfolding handleMessage_send [OF Parsed Some s ne tx True]
            by (simp add: sends_def)
          then show ?thesis ..
        qed
      qed
    qed
  qed
qed

lemma handleMessage_lost_after_send:
  assumes c: "channel e = Some ch" and p: "content msg = Parsed c" and t: "to c = JStr s"
    and ne: "s \<noteq> []" and tx: "truthy (text c)" and co: "messageSender_isConnected e"
    and lost: "channel_after_await e \<noteq> Some ChannelOpen"
  shows "settlements (handleMessage e (Some msg)) = []"
proof (cases "channel_after_await e")
  case None
  show ?thesis
    unfolding handleMessage_send [OF p c t ne tx co] None
    by (cases "messageSender_sendMessage e") (simp_all add: settlements_def catch_block_def)
next
  case (Some ch')
  with lost have "ch' = ChannelClosed" by (cases ch') simp_all
  with Some have ca: "channel_after_await e = Some ChannelClosed" by simp
  show ?thesis
    unfolding handleMessage_send [OF p c t ne tx co] ca
    by (cases "messageSender_sendMessage e") (simp_all add: settlements_def catch_block_def)
qed

text \<open>
  C1. For every consumed delivery the consumer resolves at most one delivery outcome
  (acknowledge, reject without requeue, reject with requeue) and never both an ack and a
  reject. It resolves exactly one when the channel is there and open both on delivery and
  when the awaited send resumes. It resolves none only when the channel was lost, that is,
  when the field is null or the channel closed at one of these two points; and when the
  channel is lost before any send, or lost when the awaited send resumes, the delivery is
  left unresolved.
\<close>

theorem delivery_outcome_at_most_one:
  "length (settlements (handleMessage e (Some msg))) \<le> 1 \<and>
   \<not> (Acked \<in> set (handleMessage e (Some msg)) \<and> Nacked requeue \<in> set (handleMessage e (Some msg))) \<and>
   (channel e = Some ChannelOpen \<and> channel_after_await e = Some ChannelOpen \<longrightarrow>
      length (settlements (handleMessage e (Some msg))) = 1) \<and>
   (settlements (handleMessage e (Some msg)) = [] \<longrightarrow>
      channel e \<noteq> Some ChannelOpen \<or> channel_after_await e \<noteq> Some ChannelOpen) \<and>
   (channel e = None \<longrightarrow> settlements (handleMessage e (Some msg)) = []) \<and>
   (channel e \<noteq> Some ChannelOpen \<and> sends (handleMessage e (Some msg)) = [] \<longrightarrow>
      settlements (handleMessage e (Some msg)) = []) \<and>
   (channel e = Some ch \<and> content msg = Parsed c \<and> to c = JStr s \<and> s \<noteq> [] \<and> truthy (text c) \<and>
    messageSender_isConnected e \<and> channel_after_await e \<noteq> Some ChannelOpen \<longrightarrow>
      settlements (handleMessage e (Some msg)) = [])"
proof (intro conjI impI)
  show le: "length (settlements (handleMessage e (Some msg))) \<le> 1"
    by (rule handleMessage_at_most_one)
  show "\<not> (Acked \<in> set (handleMessage e (Some msg)) \<and> Nacked requeue \<in> set (handleMessage e (Some msg)))"
  proof
    assume "Acked \<in> set (handleMessage e (Some msg)) \<and> Nacked requeue \<in> set (handleMessage e (Some msg))"
    then have "Acked \<in> set (settlements (handleMessage e (Some msg)))"
      and "Nacked requeue \<in> set (settlements (handleMessage e (Some msg)))"
      by (simp_all add: settlements_def)
    from at_most_one_distinct [OF le this] show False by simp
  qed
next
  assume "channel e = Some ChannelOpen \<and> channel_after_await e = Some ChannelOpen"
  then show "length (settlements (handleMessage e (Some msg))) = 1"
    by (simp add: handleMessage_exactly_one)
next
  assume none: "settlements (handleMessage e (Some msg)) = []"
  show "channel e \<noteq> Some ChannelOpen \<or> channel_after_await e \<noteq> Some ChannelOpen"
  proof (rule ccontr)
    assume "\<not> (channel e \<noteq> Some ChannelOpen \<or> channel_after_await e \<noteq> Some ChannelOpen)"
    then have "length (settlements (handleMessage e (Some msg))) = 1"
      by (simp add: handleMessage_exactly_one)
    with none show False by simp
  qed
next
  assume "channel e = None"
  then show "settlements (handleMessage e (Some msg)) = []"
    by (simp add: handleMessage_no_channel settlements_def)
next
  assume "channel e \<noteq> Some ChannelOpen \<and> sends (handleMessage e (Some msg)) = []"
  then show "settlements (handleMessage e (Some msg)) = []"
    by (simp add: handleMessage_lost_before_send)
next
  assume "channel e = Some ch \<and> content msg = Parsed c \<and> to c = JStr s \<and> s \<noteq> [] \<and> truthy (text c) \<and>
    messageSender_isConnected e \<and> channel_after_await e \<noteq> Some ChannelOpen"
  then show "settlements (handleMessage e (Some msg)) = []"
    using handleMessage_lost_after_send [of e ch msg c s] by blast
qed

text \<open>Scenario A of the specification: one outcome. The same command when the channel closes
  while the send is awaited: \<^verbatim>\<open>ack\<close> throws, the \<^verbatim>\<open>nack\<close> of the catch block throws too
  and is only logged, and the delivery is left unresolved.\<close>

theorem delivery_outcome_at_most_one_witness:
  "length (settlements (handleMessage connected_env (Some (send_command ''5511999999999'' ''hi'')))) = 1 \<and>
   channel_after_await (connected_env\<lparr>channel_after_await := Some ChannelClosed\<rparr>) \<noteq> Some ChannelOpen \<and>
   settlements (handleMessage (connected_env\<lparr>channel_after_await := Some ChannelClosed\<rparr>)
     (Some (send_command ''5511999999999'' ''hi''))) = []"
proof -
  let ?m = "send_command ''5511999999999'' ''hi''"
  let ?c = "\<lparr>to = JStr ''5511999999999'', text = JStr ''hi'', correlationId = JUndefined\<rparr>"
  let ?e = "connected_env\<lparr>channel_after_await := Some ChannelClosed\<rparr>"
  have o: "channel connected_env = Some ChannelOpen \<and> channel_after_await connected_env = Some ChannelOpen"
    by (simp add: connected_env_def)
  have one: "length (settlements (handleMessage connected_env (Some ?m))) = 1"
    by (rule delivery_outcome_at_most_one [of connected_env ?m, THEN conjunct2, THEN conjunct2, THEN conjunct1,
          THEN mp, OF o])
  have h: "channel ?e = Some ChannelOpen \<and> content ?m = Parsed ?c \<and> to ?c = JStr ''5511999999999'' \<and>
      ''5511999999999'' \<noteq> [] \<and> truthy (text ?c) \<and> messageSender_isConnected ?e \<and>
      channel_after_await ?e \<noteq> Some ChannelOpen"
    by (simp add: connected_env_def send_command_def)
  have none: "settlements (handleMessage ?e (Some ?m)) = []"
    by (rule delivery_outcome_at_most_one [of ?e ?m _ ChannelOpen ?c "''5511999999999''", THEN conjunct2, THEN conjunct2,
          THEN conjunct2, THEN conjunct2, THEN conjunct2, THEN conjunct2, THEN mp, OF h])
  from one none show ?thesis by (simp add: connected_env_def)
qed

text \<open>
  C2. With the channel handle present and open, the outcome follows the step order: a
  payload that fails to parse, or parses to \<^verbatim>\<open>null\<close>, is rejected without requeue; a payload
  whose \<^verbatim>\<open>to\<close> or \<^verbatim>\<open>text\<close> is missing or empty is rejected without requeue; a valid
  payload with the gateway disconnected is rejected with requeue and the sender's
  \<^verbatim>\<open>sendMessage\<close> is not called; when \<^verbatim>\<open>sendMessage\<close> resolves (and the channel is still
  open) the delivery is acknowledged on \<^verbatim>\<open>true\<close> and rejected without requeue on
  \<^verbatim>\<open>false\<close>.
\<close>

theorem outcome_by_step_order:
  assumes ch: "channel e = Some ChannelOpen"
  shows "(content msg = ParseError \<or> content msg = ParsedNull \<longrightarrow>
            handleMessage e (Some msg) = [JsonParseCalled, Nacked False]) \<and>
         (content msg = Parsed c \<and> (\<not> truthy (to c) \<or> \<not> truthy (text c)) \<longrightarrow>
            handleMessage e (Some msg) = [JsonParseCalled, Nacked False]) \<and>
         (content msg = Parsed c \<and> truthy (to c) \<and> truthy (text c) \<and> \<not> messageSender_isConnected e \<longrightarrow>
            handleMessage e (Some msg) = [JsonParseCalled, IsConnectedCalled, Nacked True] \<and>
            sends (handleMessage e (Some msg)) = []) \<and>
         (content msg = Parsed c \<and> to c = JStr s \<and> s \<noteq> [] \<and> truthy (text c) \<and>
          messageSender_isConnected e \<and> messageSender_sendMessage e = Resolves sent \<and>
          channel_after_await e = Some ChannelOpen \<longrightarrow>
            length (sends (handleMessage e (Some msg))) = 1 \<and>
            settlements (handleMessage e (Some msg)) = [if sent then Acked else Nacked False])"
proof (intro conjI impI)
  assume "content msg = ParseError \<or> content msg = ParsedNull"
  then show "handleMessage e (Some msg) = [JsonParseCalled, Nacked False]"
    using ch by (auto simp: handleMessage_ParseError handleMessage_ParsedNull)
next
  assume "content msg = Parsed c \<and> (\<not> truthy (to c) \<or> \<not> truthy (text c))"
  then show "handleMessage e (Some msg) = [JsonParseCalled, Nacked False]"
    using handleMessage_invalid [of msg c e ChannelOpen] ch by simp
next
  assume "content msg = Parsed c \<and> truthy (to c) \<and> truthy (text c) \<and> \<not> messageSender_isConnected e"
  then show d: "handleMessage e (Some msg) = [JsonParseCalled, IsConnectedCalled, Nacked True]"
    using handleMessage_disconnected [of msg c e ChannelOpen] ch by simp
  show "sends (handleMessage e (Some msg)) = []"
    unfolding d by (simp add: sends_def)
next
  assume a: "content msg = Parsed c \<and> to c = JStr s \<and> s \<noteq> [] \<and> truthy (text c) \<and>
          messageSender_isConnected e \<and> messageSender_sendMessage e = Resolves sent \<and>
          channel_after_await e = Some ChannelOpen"
  then have tr: "handleMessage e (Some msg) =
     [JsonParseCalled, IsConnectedCalled,
      SendMessageCalled (if CHR ''@'' \<in> set s then s else s @ ''@s.whatsapp.net'') (text c)
        (js_or (correlationId c) (js_or (properties_correlationId msg) (JStr (''gen-'' @ uuid e)))),
      if sent then Acked else Nacked False]"
    using handleMessage_send [of msg c e ChannelOpen s] ch by simp
  show "length (sends (handleMessage e (Some msg))) = 1"
    unfolding tr by (simp add: sends_def)
  show "settlements (handleMessage e (Some msg)) = [if sent then Acked else Nacked False]"
    unfolding tr by (simp add: settlements_def)
qed

text \<open>Scenarios A and C of the specification.\<close>

theorem outcome_by_step_order_witness:
  "settlements (handleMessage connected_env (Some (send_command ''5511999999999'' ''hi''))) = [Acked] \<and>
   handleMessage connected_env (Some not_json) = [JsonParseCalled, Nacked False]"
  using outcome_by_step_order [of connected_env "send_command ''5511999999999'' ''hi''"
      "\<lparr>to = JStr ''5511999999999'', text = JStr ''hi'', correlationId = JUndefined\<rparr>"
      "''5511999999999''" True]
    outcome_by_step_order [of connected_env not_json]
  by (simp add: connected_env_def send_command_def not_json_def)

text \<open>
  Without the hypothesis on the channel the claim fails: \<^verbatim>\<open>this.channel?.nack(...)\<close> does
  nothing when the field is null, so an unparseable payload is not rejected.
\<close>

theorem parse_failure_without_channel_counterexample:
  "content not_json = ParseError \<and>
   handleMessage (connected_env\<lparr>channel := None\<rparr>) (Some not_json) = [JsonParseCalled]"
  by (simp add: not_json_def connected_env_def handleMessage_def try_block_def)

lemma recipients_simps:
  "recipients [] = []"
  "recipients (SendMessageCalled t x cid # tr) = t # recipients tr"
  "recipients (JsonParseCalled # tr) = recipients tr"
  "recipients (IsConnectedCalled # tr) = recipients tr"
  "recipients (Acked # tr) = recipients tr"
  "recipients (Nacked r # tr) = recipients tr"
  "recipients (AckThrew # tr) = recipients tr"
  "recipients (NackThrew r # tr) = recipients tr"
  by (simp_all add: recipients_def List.map_filter_simps)

lemma recipients_after_send:
  "recipients
     (case sr of
        Rejects \<Rightarrow> catch_block ca
      | Resolves sent \<Rightarrow>
          (case ca of
             None \<Rightarrow> []
           | Some ChannelOpen \<Rightarrow> [if sent then Acked else Nacked False]
           | Some ChannelClosed \<Rightarrow> [if sent then AckThrew else NackThrew False, NackThrew False])) = []"
proof (cases sr)
  case (Resolves sent)
  then show ?thesis
    by (cases ca) (simp_all add: recipients_simps split: Channel.splits)
next
  case Rejects
  show ?thesis
  proof (cases ca)
    case None
    with Rejects show ?thesis by (simp add: recipients_simps catch_block_def)
  next
    case (Some a)
    with Rejects show ?thesis by (cases a) (simp_all add: recipients_simps catch_block_def)
  qed
qed

lemma recipients_handleMessage:
  assumes p: "content msg = Parsed c" and s: "to c = JStr s"
  shows "recipients (handleMessage e (Some msg)) =
     (if channel e \<noteq> None \<and> s \<noteq> [] \<and> truthy (text c) \<and> messageSender_isConnected e
      then [if CHR ''@'' \<in> set s then s else s @ ''@s.whatsapp.net''] else [])"
proof (cases "channel e")
  case None
  then show ?thesis by (simp add: handleMessage_no_channel recipients_simps)
next
  case (Some ch)
  show ?thesis
  proof (cases "s \<noteq> [] \<and> truthy (text c)")
    case False
    with s have "\<not> truthy (to c) \<or> \<not> truthy (text c)" by auto
    from handleMessage_invalid [OF p Some this] False show ?thesis
      by (cases ch) (auto simp: recipients_simps)
  next
    case valid: True
    show ?thesis
    proof (cases "messageSender_isConnected e")
      case False
      with valid s handleMessage_disconnected [OF p Some] show ?thesis
        by (cases ch) (simp_all add: recipients_simps)
    next
      case True
      from valid have ne: "s \<noteq> []" and tx: "truthy (text c)" by simp_all
      show ?thesis
        unfolding handleMessage_send [OF p Some s ne tx True]
        using recipients_after_send [where sr = "messageSender_sendMessage e" and ca = "channel_after_await e"]
          Some valid True
        by (simp add: recipients_simps recipients_def List.map_filter_simps)
    qed
  qed
qed

text \<open>
  C3. For a command whose \<^verbatim>\<open>to\<close> is a string without \<^verbatim>\<open>@\<close>, every recipient the
  consumer passes to \<^verbatim>\<open>sendMessage\<close> is \<^verbatim>\<open>to\<close> followed by \<^verbatim>\<open>@s.whatsapp.net\<close>,
  whatever its length, and that call is made when the channel handle is present, the
  payload valid and the gateway connected. This is the result of \<^verbatim>\<open>getFormattedJid\<close>
  exactly when \<^verbatim>\<open>to\<close> is shorter than 14 characters.
\<close>

theorem consumer_recipient_direct_domain:
  assumes "content msg = Parsed c" and "to c = JStr s" and "CHR ''@'' \<notin> set s"
  shows "(\<forall>t \<in> set (recipients (handleMessage e (Some msg))). t = s @ ''@s.whatsapp.net'') \<and>
         (channel e \<noteq> None \<and> s \<noteq> [] \<and> truthy (text c) \<and> messageSender_isConnected e \<longrightarrow>
            recipients (handleMessage e (Some msg)) = [s @ ''@s.whatsapp.net'']) \<and>
         (getFormattedJid s = s @ ''@s.whatsapp.net'' \<longleftrightarrow> length s < 14)"
proof (intro conjI impI ballI)
  note r = recipients_handleMessage [OF assms(1) assms(2), of e]
  fix t assume "t \<in> set (recipients (handleMessage e (Some msg)))"
  then show "t = s @ ''@s.whatsapp.net''"
    unfolding r using assms(3) by (simp split: if_splits)
next
  assume "channel e \<noteq> None \<and> s \<noteq> [] \<and> truthy (text c) \<and> messageSender_isConnected e"
  then show "recipients (handleMessage e (Some msg)) = [s @ ''@s.whatsapp.net'']"
    unfolding recipients_handleMessage [OF assms(1) assms(2), of e] using assms(3) by simp
next
  show "(getFormattedJid s = s @ ''@s.whatsapp.net'') = (length s < 14)"
    using assms(3) by (simp add: getFormattedJid_def)
qed

theorem consumer_recipient_direct_domain_witness:
  "recipients (handleMessage connected_env (Some (send_command ''5511999999999'' ''hi''))) =
     [''5511999999999@s.whatsapp.net''] \<and>
   getFormattedJid ''5511999999999'' = ''5511999999999@s.whatsapp.net''"
proof -
  have p: "content (send_command ''5511999999999'' ''hi'') =
      Parsed \<lparr>to = JStr ''5511999999999'', text = JStr ''hi'', correlationId = JUndefined\<rparr>"
    by (simp add: send_command_def)
  have t: "to \<lparr>to = JStr ''5511999999999'', text = JStr ''hi'', correlationId = JUndefined\<rparr> =
      JStr ''5511999999999''"
    by simp
  have n: "CHR ''@'' \<notin> set ''5511999999999''" by simp
  have l: "length ''5511999999999'' < 14" by simp
  have e: "channel connected_env \<noteq> None \<and> ''5511999999999'' \<noteq> [] \<and>
      truthy (text \<lparr>to = JStr ''5511999999999'', text = JStr ''hi'', correlationId = JUndefined\<rparr>) \<and>
      messageSender_isConnected connected_env"
    by (simp add: connected_env_def)
  note th = consumer_recipient_direct_domain [OF p t n, of connected_env]
  from e have r: "recipients (handleMessage connected_env (Some (send_command ''5511999999999'' ''hi''))) =
      [''5511999999999'' @ ''@s.whatsapp.net'']"
    by (rule th [THEN conjunct2, THEN conjunct1, THEN mp])
  from l have g: "getFormattedJid ''5511999999999'' = ''5511999999999'' @ ''@s.whatsapp.net''"
    by (rule th [THEN conjunct2, THEN conjunct2, THEN iffD2])
  from r g show ?thesis by simp
qed

text \<open>
  A 14-digit identifier: \<^verbatim>\<open>getFormattedJid\<close> gives it the group domain, the consumer sends
  to the direct-chat domain.
\<close>

theorem group_length_recipient_counterexample:
  "recipients (handleMessage connected_env (Some (send_command ''12345678901234'' ''hi''))) =
     [''12345678901234@s.whatsapp.net''] \<and>
   getFormattedJid ''12345678901234'' = ''12345678901234@g.us''"
  by (simp add: connected_env_def send_command_def handleMessage_def try_block_def
      call_in_try_def catch_block_def recipients_simps js_or_def getFormattedJid_def)

text \<open>
  C10. A null delivery is ignored: no call of \<^verbatim>\<open>JSON.parse\<close>, no call on the sender,
  no ack and no reject.
\<close>

theorem null_delivery_ignored:
  "handleMessage e None = []"
  by (simp add: handleMessage_def)

subsection \<open>The inbound message handler\<close>

lemma messageText_find:
  "messageText m =
     (case List.find str_truthy (text_candidates m) of
        None \<Rightarrow> listResponseMessage_title m
      | Some c \<Rightarrow> c)"
  by (simp add: messageText_def text_candidates_def str_or_def)

lemma not_truthy_blank: "\<not> str_truthy a \<Longrightarrow> blank a"
  by (cases a) (simp_all add: str_truthy_def blank_def trim_def)

lemma messageText_blank:
  "\<forall>c \<in> set (text_candidates m). blank c \<Longrightarrow> blank (messageText m)"
  by (simp add: messageText_def text_candidates_def str_or_def)

lemma handle_one_unparseable:
  "isFilteredMessage m p = None \<Longrightarrow> blank (messageText m) \<or> \<not> str_truthy (key_remoteJid m) \<Longrightarrow>
   handle_one u p m = Unparseable"
  by (auto simp: handle_one_def blank_def str_truthy_def Let_def split: option.splits)

lemma handle_one_published_text:
  "handle_one u p m = Publish d \<Longrightarrow> messageText m = Some (data_text d) \<and> trim (data_text d) \<noteq> []"
  by (auto simp: handle_one_def Let_def split: option.splits if_splits)

lemma handle_one_publishes:
  assumes nf: "isFilteredMessage m p = None" and t: "messageText m = Some t" and ne: "trim t \<noteq> []"
  shows "\<exists>d. handle_one u p m = Publish d \<and> data_text d = t \<and> key_remoteJid m = Some (data_from d)"
proof -
  from nf have "str_truthy (key_remoteJid m)"
    by (simp add: isFilteredMessage_def split: if_splits)
  then obtain sender where s: "key_remoteJid m = Some sender" and sne: "sender \<noteq> []"
    by (cases "key_remoteJid m") (auto simp: str_truthy_def)
  show ?thesis
    using nf t ne s sne by (simp add: handle_one_def Let_def)
qed

lemma handle_one_unparseable_iff:
  assumes nf: "isFilteredMessage m p = None"
  shows "handle_one u p m = Unparseable \<longleftrightarrow> blank (messageText m)"
proof
  assume "blank (messageText m)"
  then show "handle_one u p m = Unparseable"
    using handle_one_unparseable [OF nf] by blast
next
  assume un: "handle_one u p m = Unparseable"
  show "blank (messageText m)"
  proof (rule ccontr)
    assume "\<not> blank (messageText m)"
    then obtain t where "messageText m = Some t" and "trim t \<noteq> []"
      by (cases "messageText m") (auto simp: blank_def)
    from handle_one_publishes [OF nf this, of u] un show False by auto
  qed
qed

lemma trim_nonempty: "trim c \<noteq> [] \<Longrightarrow> c \<noteq> []"
  by (auto simp: trim_def)

text \<open>
  C9. For a message that passes the filter, the extracted text is the first non-empty one
  of the plain text body, the extended text body, the button reply's display text and the
  list reply's title, in this order; so a non-empty plain text body is chosen whatever the
  others hold. When the extracted text is not blank after trimming, the message is
  published with exactly that text and its sender; in particular a plain text body that is
  not blank is published. The message is dropped as unparseable, and nothing is
  published, exactly when the extracted text is missing or blank, which is the case when
  every candidate is missing or blank (and the same holds if the sender is absent).
\<close>

theorem text_extraction_precedence:
  assumes "isFilteredMessage m p = None"
  shows "messageText m =
           (case List.find str_truthy (text_candidates m) of
              None \<Rightarrow> listResponseMessage_title m
            | Some c \<Rightarrow> c) \<and>
         (str_truthy (conversation m) \<longrightarrow> messageText m = conversation m) \<and>
         (\<forall>d. handle_one u p m = Publish d \<longrightarrow>
              List.find str_truthy (text_candidates m) = Some (Some (data_text d))) \<and>
         (\<not> str_truthy (key_remoteJid m) \<or> (\<forall>c \<in> set (text_candidates m). blank c) \<longrightarrow>
              handle_one u p m = Unparseable) \<and>
         (\<forall>t. messageText m = Some t \<and> trim t \<noteq> [] \<longrightarrow>
              (\<exists>d. handle_one u p m = Publish d \<and> data_text d = t \<and>
                   key_remoteJid m = Some (data_from d))) \<and>
         (\<forall>c. conversation m = Some c \<and> trim c \<noteq> [] \<longrightarrow>
              (\<exists>d. handle_one u p m = Publish d \<and> data_text d = c)) \<and>
         (handle_one u p m = Unparseable \<longleftrightarrow> blank (messageText m))"
proof (intro conjI impI allI)
  show "messageText m =
      (case List.find str_truthy (text_candidates m) of
         None \<Rightarrow> listResponseMessage_title m | Some c \<Rightarrow> c)"
    by (rule messageText_find)
  show "messageText m = conversation m" if "str_truthy (conversation m)"
    using that by (simp add: messageText_def str_or_def)
  show "handle_one u p m = Unparseable \<longleftrightarrow> blank (messageText m)"
    by (rule handle_one_unparseable_iff [OF assms])
next
  fix d assume pub: "handle_one u p m = Publish d"
  from handle_one_published_text [OF pub]
  have t: "messageText m = Some (data_text d)" and ne: "trim (data_text d) \<noteq> []"
    by simp_all
  from ne have "data_text d \<noteq> []" by (rule trim_nonempty)
  then have tr: "str_truthy (messageText m)" by (simp add: t str_truthy_def)
  show "List.find str_truthy (text_candidates m) = Some (Some (data_text d))"
  proof (cases "List.find str_truthy (text_candidates m)")
    case None
    then have "\<not> str_truthy (listResponseMessage_title m)"
      by (simp add: text_candidates_def split: if_splits)
    with None tr show ?thesis by (simp add: messageText_find)
  next
    case (Some c)
    with t show ?thesis by (simp add: messageText_find)
  qed
next
  assume "\<not> str_truthy (key_remoteJid m) \<or> (\<forall>c \<in> set (text_candidates m). blank c)"
  then have "blank (messageText m) \<or> \<not> str_truthy (key_remoteJid m)"
    using messageText_blank [of m] by blast
  then show "handle_one u p m = Unparseable"
    by (rule handle_one_unparseable [OF assms])
next
  fix t assume "messageText m = Some t \<and> trim t \<noteq> []"
  then show "\<exists>d. handle_one u p m = Publish d \<and> data_text d = t \<and>
      key_remoteJid m = Some (data_from d)"
    using handle_one_publishes [OF assms, of t u] by blast
next
  fix c assume c: "conversation m = Some c \<and> trim c \<noteq> []"
  then have "c \<noteq> []" using trim_nonempty by blast
  with c have "messageText m = Some c"
    by (simp add: messageText_def str_or_def str_truthy_def)
  with c handle_one_publishes [OF assms, of c u]
  show "\<exists>d. handle_one u p m = Publish d \<and> data_text d = c" by blast
qed

text \<open>Both the plain and the extended text body are populated: the message is published
  with the plain one.\<close>

theorem text_extraction_precedence_witness:
  "isFilteredMessage text_message \<lparr>messages = [text_message], upsert_type = ''notify''\<rparr> = None \<and>
   conversation text_message = Some ''hello'' \<and>
   extendedTextMessage_text text_message = Some ''quoted'' \<and>
   messageText text_message = Some ''hello'' \<and>
   (case handle_one ''0123456789abcdef'' \<lparr>messages = [text_message], upsert_type = ''notify''\<rparr>
           text_message of
      Publish d \<Rightarrow> data_text d = ''hello'' \<and> data_from d = ''5511999999999@s.whatsapp.net''
    | Ignored criteria \<Rightarrow> False
    | Unparseable \<Rightarrow> False)"
proof -
  let ?p = "\<lparr>messages = [text_message], upsert_type = ''notify''\<rparr>"
  have nf: "isFilteredMessage text_message ?p = None"
    by (simp add: isFilteredMessage_def text_message_def str_truthy_def)
  note th = text_extraction_precedence [OF nf, of "''0123456789abcdef''"]
  have tr: "str_truthy (conversation text_message)"
    by (simp add: text_message_def str_truthy_def)
  have mt: "messageText text_message = conversation text_message"
    by (rule th [THEN conjunct2, THEN conjunct1, THEN mp, OF tr])
  have h: "messageText text_message = Some ''hello'' \<and> trim ''hello'' \<noteq> []"
    using mt by (simp add: text_message_def trim_def js_whitespace_def)
  from th have "\<forall>t. messageText text_message = Some t \<and> trim t \<noteq> [] \<longrightarrow>
      (\<exists>d. handle_one ''0123456789abcdef'' ?p text_message = Publish d \<and> data_text d = t \<and>
           key_remoteJid text_message = Some (data_from d))"
    by blast
  with h obtain d where d: "handle_one ''0123456789abcdef'' ?p text_message = Publish d"
    and dt: "data_text d = ''hello''" and df: "key_remoteJid text_message = Some (data_from d)"
    by blast
  from df have "data_from d = ''5511999999999@s.whatsapp.net''"
    by (simp add: text_message_def)
  with d dt nf mt show ?thesis by (simp add: text_message_def)
qed

lemmas wa_defs = connectToWhatsApp_def initial_world_def clearReconnectTimeout_def
  clearConnectionAttemptTimeout_def clearTimeout_def setTimeout_def scheduleReconnect_def
  emit_pre_disconnect_def emit_connection_open_def unregisterHandlers_def registerHandlers_def
  after_logout_def after_auth_state_def connect_failed_def on_connection_update_def
  run_callback_def listening_def listens_def mark_closed_def step_def handlers_def Let_def
  open_update_def close_update_def CONNECTION_TIMEOUT_MS_def

subsection \<open>The registry and the socket it binds to\<close>

lemma invoked_registerHandlers:
  "sock w = Some k \<Longrightarrow>
   invoked (registerHandlers hs w) k e =
     invoked w k e @ map (\<lambda>x. HandlerWrapper (fst x)) (filter (\<lambda>x. snd x = e) (enumerate 0 hs))"
  by (simp add: invoked_def registerHandlers_def filter_map comp_def case_prod_beta)

lemma invoked_unregisterHandlers:
  "sock w = Some k \<Longrightarrow> e \<in> set hs \<Longrightarrow> invoked (unregisterHandlers hs w) k e = []"
  by (auto simp: invoked_def unregisterHandlers_def filter_empty_conv)

lemma reconnect_path_unbinds:
  "sock w = Some k \<Longrightarrow> \<not> isConnecting w \<Longrightarrow> e \<in> set handlers \<Longrightarrow>
   invoked (connectToWhatsApp w) k e = [] \<and> pending (connectToWhatsApp w) = pending w @ [AwaitLogout k]"
  by (auto simp: connectToWhatsApp_def Let_def clearReconnectTimeout_def
      clearConnectionAttemptTimeout_def clearTimeout_def emit_pre_disconnect_def
      invoked_def unregisterHandlers_def filter_empty_conv split: option.splits)

lemma close_path_keeps_listeners:
  "sockets (on_connection_update (close_update code) w) = sockets w \<and>
   sock (on_connection_update (close_update code) w) = None"
  by (simp add: on_connection_update_def close_update_def Let_def clearConnectionAttemptTimeout_def
      clearTimeout_def emit_pre_disconnect_def unregisterHandlers_def scheduleReconnect_def
      setTimeout_def split: option.splits)

text \<open>
  C4. The handlers are to be unbound from a socket before it is discarded. On the
  reconnect path they are (\<open>reconnect_path_unbinds\<close>). On the close path they are not:
  the service starts, socket 0 opens, the handlers are registered on it, and it reports
  \<^verbatim>\<open>close\<close> with status 428. The listener clears \<^verbatim>\<open>this.sock\<close> first and emits
  \<^verbatim>\<open>'pre-disconnect'\<close> afterwards, so \<^verbatim>\<open>unregisterHandlers\<close> finds no socket, and the
  message handler is still bound to the discarded socket 0.
\<close>

theorem close_path_leaves_handlers_bound:
  "map_option (\<lambda>w. (sock w, invoked w 0 ''messages.upsert''))
     (run [AuthStateSettled (SocketCreated True), SocketUpdate 0 open_update, TimerFires 1,
           SocketUpdate 0 (close_update (Some 428))]
        (connectToWhatsApp initial_world)) =
   Some (None, [HandlerWrapper 0])"
  by (simp add: wa_defs invoked_def enumerate_eq_zip loggedOut_def)


subsection \<open>Single flight of the broker connection service\<close>

lemma amqp_scheduleReconnect_inv:
  assumes "amqp_inv a" and "amqp_pending a = []" and "amqp_channel a = None"
  shows "amqp_inv (amqp_scheduleReconnect a)"
  using assms
  by (cases "amqp_timers a")
     (auto simp: amqp_inv_def amqp_scheduleReconnect_def Let_def)

lemma amqp_connect_inv:
  assumes "amqp_inv a" and "amqp_pending a = []" and "amqp_channel a = None"
  shows "amqp_inv (amqp_connect a)"
  using assms
  by (cases "amqp_timers a")
     (auto simp: amqp_inv_def amqp_connect_def amqp_clearReconnectTimeout_def Let_def
        split: option.splits)

lemma single_remove1:
  "length xs \<le> 1 \<Longrightarrow> x \<in> set xs \<Longrightarrow> remove1 x xs = []"
  by (cases xs) auto

lemma amqp_connect_failed_inv:
  assumes "amqp_inv a" and "amqp_pending a = []" and "amqp_timers a = []"
  shows "amqp_inv (amqp_connect_failed a)"
  unfolding amqp_connect_failed_def
  by (rule amqp_scheduleReconnect_inv) (use assms in \<open>auto simp: amqp_inv_def\<close>)

lemma amqp_step_inv:
  assumes inv: "amqp_inv a" and st: "amqp_step e a = Some a'"
  shows "amqp_inv a'"
proof (cases e)
  case (AmqpTimerFires t)
  with st obtain x where x: "find (\<lambda>x. fst x = t) (amqp_timers a) = Some x"
    and a': "a' = amqp_connect (a\<lparr>amqp_timers := remove1 x (amqp_timers a), amqp_reconnectTimeout := None\<rparr>)"
    by (auto simp: amqp_step_def split: option.splits)
  from x have xin: "x \<in> set (amqp_timers a)"
    by (auto simp: find_Some_iff)
  with inv have r: "remove1 x (amqp_timers a) = []" and p: "amqp_pending a = []"
    and c: "amqp_channel a = None"
    by (auto simp: amqp_inv_def single_remove1)
  show ?thesis unfolding a'
    by (rule amqp_connect_inv) (use inv r p c in \<open>auto simp: amqp_inv_def\<close>)
next
  case (ConnectSettled ok)
  with st have pin: "AwaitConnect \<in> set (amqp_pending a)"
    and a': "a' = amqp_after_connect ok (a\<lparr>amqp_pending := remove1 AwaitConnect (amqp_pending a)\<rparr>)"
    by (auto simp: amqp_step_def split: if_splits)
  from inv pin have r: "remove1 AwaitConnect (amqp_pending a) = []"
    and t: "amqp_timers a = []" and ic: "amqp_isConnecting a" and c: "amqp_channel a = None"
    by (auto simp: amqp_inv_def single_remove1)
  show ?thesis
  proof (cases ok)
    case True
    with inv r t ic c show ?thesis
      unfolding a' by (auto simp: amqp_after_connect_def amqp_inv_def)
  next
    case False
    then have "a' = amqp_connect_failed (a\<lparr>amqp_pending := remove1 AwaitConnect (amqp_pending a)\<rparr>)"
      by (simp add: a' amqp_after_connect_def)
    moreover have "amqp_inv (amqp_connect_failed (a\<lparr>amqp_pending := remove1 AwaitConnect (amqp_pending a)\<rparr>))"
      by (rule amqp_connect_failed_inv) (use inv r t c in \<open>auto simp: amqp_inv_def\<close>)
    ultimately show ?thesis by simp
  qed
next
  case (CreateChannelSettled ok)
  with st have pin: "AwaitCreateChannel \<in> set (amqp_pending a)"
    and a': "a' = amqp_after_createChannel ok
                    (a\<lparr>amqp_pending := remove1 AwaitCreateChannel (amqp_pending a)\<rparr>)"
    by (auto simp: amqp_step_def split: if_splits)
  from inv pin have r: "remove1 AwaitCreateChannel (amqp_pending a) = []"
    and t: "amqp_timers a = []" and ic: "amqp_isConnecting a" and c: "amqp_channel a = None"
    by (auto simp: amqp_inv_def single_remove1)
  let ?b = "a\<lparr>amqp_pending := remove1 AwaitCreateChannel (amqp_pending a)\<rparr>"
  have binv: "amqp_inv ?b" and bp: "amqp_pending ?b = []" and bt: "amqp_timers ?b = []"
    using inv r t c by (auto simp: amqp_inv_def)
  show ?thesis
  proof (cases "ok \<and> amqp_connection a \<noteq> None")
    case True
    with inv r t ic c show ?thesis
      unfolding a' by (auto simp: amqp_after_createChannel_def amqp_inv_def Let_def)
  next
    case False
    show ?thesis
    proof (cases ok)
      case True
      with False have cn: "amqp_connection a = None" by simp
      let ?c = "?b\<lparr>amqp_channel := Some (amqp_next_object ?b),
                    amqp_next_object := Suc (amqp_next_object ?b),
                    amqp_reconnectAttempts := 0\<rparr>"
      have "a' = amqp_connect_failed ?c"
        using True cn by (simp add: a' amqp_after_createChannel_def Let_def)
      moreover have "amqp_inv (amqp_connect_failed ?c)"
        unfolding amqp_connect_failed_def
        by (rule amqp_scheduleReconnect_inv) (use inv r t c in \<open>auto simp: amqp_inv_def\<close>)
      ultimately show ?thesis by simp
    next
      case False
      then have "a' = amqp_connect_failed ?b"
        by (simp add: a' amqp_after_createChannel_def)
      with amqp_connect_failed_inv [OF binv bp bt] show ?thesis by simp
    qed
  qed
next
  case (ConnectionError c)
  with st have a': "a' = handleDisconnect a"
    by (auto simp: amqp_step_def split: if_splits)
  show ?thesis
  proof (cases "\<not> amqp_isConnecting a \<and> (amqp_channel a \<noteq> None \<or> amqp_connection a \<noteq> None)")
    case True
    then have "a' = amqp_scheduleReconnect (a\<lparr>amqp_channel := None, amqp_connection := None\<rparr>)"
      by (simp add: a' handleDisconnect_def)
    moreover have "amqp_inv (amqp_scheduleReconnect (a\<lparr>amqp_channel := None, amqp_connection := None\<rparr>))"
      by (rule amqp_scheduleReconnect_inv) (use inv True in \<open>auto simp: amqp_inv_def\<close>)
    ultimately show ?thesis by simp
  next
    case False
    then have "a' = a" by (auto simp: a' handleDisconnect_def)
    with inv show ?thesis by simp
  qed
next
  case (ConnectionClosed c)
  with st have a': "a' = (if \<not> amqp_isConnecting a \<and> amqp_connection a \<noteq> None
                      then handleDisconnect a else a)"
    by (auto simp: amqp_step_def split: if_splits)
  show ?thesis
  proof (cases "\<not> amqp_isConnecting a \<and> amqp_connection a \<noteq> None")
    case True
    then have "a' = amqp_scheduleReconnect (a\<lparr>amqp_channel := None, amqp_connection := None\<rparr>)"
      by (simp add: a' handleDisconnect_def)
    moreover have "amqp_inv (amqp_scheduleReconnect (a\<lparr>amqp_channel := None, amqp_connection := None\<rparr>))"
      by (rule amqp_scheduleReconnect_inv) (use inv True in \<open>auto simp: amqp_inv_def\<close>)
    ultimately show ?thesis by simp
  next
    case False
    then have "a' = a" by (auto simp: a')
    with inv show ?thesis by simp
  qed
qed

lemma amqp_run_inv:
  "amqp_inv a \<Longrightarrow> amqp_run es a = Some a' \<Longrightarrow> amqp_inv a'"
proof (induction es arbitrary: a)
  case Nil
  then show ?case by simp
next
  case (Cons e es)
  then show ?case
    by (auto split: option.splits dest: amqp_step_inv)
qed

lemma amqp_reachable_inv: "amqp_reachable a \<Longrightarrow> amqp_inv a"
proof -
  assume "amqp_reachable a"
  then obtain es where es: "amqp_run es (amqp_connect amqp_initial) = Some a"
    by (auto simp: amqp_reachable_def)
  have "amqp_inv (amqp_connect amqp_initial)"
    by (simp add: amqp_inv_def amqp_connect_def amqp_initial_def amqp_clearReconnectTimeout_def)
  from amqp_run_inv [OF this es] show ?thesis .
qed

subsection \<open>Single flight of the gateway connection service\<close>

lemma reconnect_timers_clearTimeout:
  "reconnect_timers (clearTimeout t w) = filter (\<lambda>x. fst x \<noteq> t) (reconnect_timers w)"
  by (simp add: reconnect_timers_def clearTimeout_def conj_commute)

lemma clearConnectionAttemptTimeout_frame:
  "sock (clearConnectionAttemptTimeout w) = sock w"
  "pending (clearConnectionAttemptTimeout w) = pending w"
  "sockets (clearConnectionAttemptTimeout w) = sockets w"
  "isConnecting (clearConnectionAttemptTimeout w) = isConnecting w"
  "reconnectTimeout (clearConnectionAttemptTimeout w) = reconnectTimeout w"
  "next_sock (clearConnectionAttemptTimeout w) = next_sock w"
  by (auto simp: clearConnectionAttemptTimeout_def clearTimeout_def split: option.splits)

lemma reconnect_timers_clearConnectionAttemptTimeout:
  "set (reconnect_timers (clearConnectionAttemptTimeout w)) \<subseteq> set (reconnect_timers w)"
  "length (reconnect_timers (clearConnectionAttemptTimeout w)) \<le> length (reconnect_timers w)"
proof -
  have "reconnect_timers (clearConnectionAttemptTimeout w) =
      (case connectionAttemptTimeout w of
         None \<Rightarrow> reconnect_timers w
       | Some t \<Rightarrow> filter (\<lambda>x. fst x \<noteq> t) (reconnect_timers w))"
    by (cases "connectionAttemptTimeout w")
       (simp_all add: clearConnectionAttemptTimeout_def reconnect_timers_def clearTimeout_def
          conj_commute)
  then show "set (reconnect_timers (clearConnectionAttemptTimeout w)) \<subseteq> set (reconnect_timers w)"
    and "length (reconnect_timers (clearConnectionAttemptTimeout w)) \<le> length (reconnect_timers w)"
    by (auto split: option.splits)
qed

lemma clearReconnectTimeout_frame:
  "sock (clearReconnectTimeout w) = sock w"
  "pending (clearReconnectTimeout w) = pending w"
  "sockets (clearReconnectTimeout w) = sockets w"
  "isConnecting (clearReconnectTimeout w) = isConnecting w"
  "reconnectTimeout (clearReconnectTimeout w) = None"
  "next_sock (clearReconnectTimeout w) = next_sock w"
  by (auto simp: clearReconnectTimeout_def clearTimeout_def split: option.splits)

lemma scheduleReconnect_frame:
  "sock (scheduleReconnect w) = sock w"
  "pending (scheduleReconnect w) = pending w"
  "sockets (scheduleReconnect w) = sockets w"
  "isConnecting (scheduleReconnect w) = isConnecting w"
  "next_sock (scheduleReconnect w) = next_sock w"
  by (auto simp: scheduleReconnect_def setTimeout_def Let_def)

lemma timers_inv_none: "timers_inv w \<Longrightarrow> reconnectTimeout w = None \<Longrightarrow> reconnect_timers w = []"
  by (cases "reconnect_timers w") (auto simp: timers_inv_def)

lemma timers_inv_clearConnectionAttemptTimeout:
  "timers_inv w \<Longrightarrow> timers_inv (clearConnectionAttemptTimeout w)"
  using reconnect_timers_clearConnectionAttemptTimeout [of w]
  by (auto simp: timers_inv_def clearConnectionAttemptTimeout_frame(5))

lemma reconnect_timers_clearReconnectTimeout:
  "timers_inv w \<Longrightarrow> reconnect_timers (clearReconnectTimeout w) = []"
proof (cases "reconnectTimeout w")
  case None
  assume "timers_inv w"
  with None show ?thesis
    by (simp add: clearReconnectTimeout_def timers_inv_none)
next
  case (Some t)
  assume "timers_inv w"
  then have "\<forall>x \<in> set (reconnect_timers w). fst x = t"
    using Some by (auto simp: timers_inv_def)
  then have "filter (\<lambda>x. fst x \<noteq> t) (reconnect_timers w) = []"
    by (auto simp: filter_empty_conv)
  then show ?thesis
    using Some
    by (simp add: clearReconnectTimeout_def clearTimeout_def reconnect_timers_def conj_commute)
qed

lemma timers_inv_scheduleReconnect:
  "timers_inv w \<Longrightarrow> timers_inv (scheduleReconnect w)"
proof (cases "isConnecting w \<or> reconnectTimeout w \<noteq> None")
  case True
  assume "timers_inv w"
  with True show ?thesis by (simp add: scheduleReconnect_def)
next
  case False
  assume "timers_inv w"
  with False have "reconnect_timers w = []" by (simp add: timers_inv_none)
  with False show ?thesis
    by (simp add: scheduleReconnect_def setTimeout_def Let_def timers_inv_def reconnect_timers_def)
qed

lemma reconnect_timers_scheduleReconnect:
  "reconnect_timers w = [] \<Longrightarrow> length (reconnect_timers (scheduleReconnect w)) \<le> 1"
  by (simp add: scheduleReconnect_def setTimeout_def Let_def reconnect_timers_def)

text \<open>Unregistering the handlers of the module silences the current socket.\<close>

lemma listening_emit_pre_disconnect:
  "listening (emit_pre_disconnect w) k \<longleftrightarrow> listening w k \<and> sock w \<noteq> Some k"
  by (auto simp: emit_pre_disconnect_def unregisterHandlers_def listening_def listens_def
      handlers_def split: option.splits)

lemma emit_pre_disconnect_frame:
  "sock (emit_pre_disconnect w) = sock w"
  "pending (emit_pre_disconnect w) = pending w"
  "timers (emit_pre_disconnect w) = timers w"
  "isConnecting (emit_pre_disconnect w) = isConnecting w"
  "reconnectTimeout (emit_pre_disconnect w) = reconnectTimeout w"
  "reconnect_timers (emit_pre_disconnect w) = reconnect_timers w"
  by (auto simp: emit_pre_disconnect_def unregisterHandlers_def reconnect_timers_def
      split: option.splits)

lemma listening_registerHandlers:
  "listening (registerHandlers hs w) k \<longleftrightarrow> listening w k"
  by (auto simp: registerHandlers_def listening_def listens_def split: option.splits)

lemma registerHandlers_frame:
  "sock (registerHandlers hs w) = sock w"
  "pending (registerHandlers hs w) = pending w"
  "timers (registerHandlers hs w) = timers w"
  "reconnectTimeout (registerHandlers hs w) = reconnectTimeout w"
  "reconnect_timers (registerHandlers hs w) = reconnect_timers w"
  by (auto simp: registerHandlers_def reconnect_timers_def split: option.splits)

lemma wa_inv_connectToWhatsApp:
  assumes inv: "wa_inv w" and p: "pending w = []"
  shows "wa_inv (connectToWhatsApp w)"
proof (cases "isConnecting w")
  case True
  with inv show ?thesis by (simp add: connectToWhatsApp_def)
next
  case False
  let ?w0 = "w\<lparr>isConnecting := True\<rparr>"
  let ?w1 = "clearReconnectTimeout (clearConnectionAttemptTimeout ?w0)"
  from inv have t0: "timers_inv ?w0"
    by (simp add: wa_inv_def timers_inv_def reconnect_timers_def)
  have t1: "timers_inv (clearConnectionAttemptTimeout ?w0)"
    by (rule timers_inv_clearConnectionAttemptTimeout [OF t0])
  have rc: "reconnect_timers ?w1 = []"
    by (rule reconnect_timers_clearReconnectTimeout [OF t1])
  have ti: "timers_inv ?w1"
    using rc by (simp add: timers_inv_def)
  have s1: "sock ?w1 = sock w" and p1: "pending ?w1 = []"
    and li: "\<And>k. listening ?w1 k = listening w k"
    using p by (simp_all add: clearReconnectTimeout_frame clearConnectionAttemptTimeout_frame
        listening_def)
  from inv have cur: "\<And>k. listening w k \<Longrightarrow> sock w = Some k"
    by (simp add: wa_inv_def)
  show ?thesis
  proof (cases "sock w")
    case None
    with cur have nl: "\<And>k. \<not> listening w k" by fastforce
    from None False have c: "connectToWhatsApp w = ?w1\<lparr>pending := pending ?w1 @ [AwaitAuthState]\<rparr>"
      by (simp add: connectToWhatsApp_def Let_def s1)
    show ?thesis
      unfolding c using ti rc p1 nl li
      by (simp add: wa_inv_def timers_inv_def reconnect_timers_def listening_def)
  next
    case (Some k)
    from Some False have c: "connectToWhatsApp w =
        (emit_pre_disconnect ?w1)\<lparr>pending := pending ?w1 @ [AwaitLogout k]\<rparr>"
      by (simp add: connectToWhatsApp_def Let_def s1)
    have nl: "\<And>j. \<not> listening (emit_pre_disconnect ?w1) j"
      using cur li s1 by (auto simp: listening_emit_pre_disconnect)
    show ?thesis
      unfolding c using ti rc p1 nl
      by (simp add: wa_inv_def timers_inv_def reconnect_timers_def listening_def
          emit_pre_disconnect_frame)
  qed
qed


lemma wa_inv_field_updates:
  "wa_inv (w\<lparr>isConnecting := b\<rparr>) = wa_inv w"
  "wa_inv (w\<lparr>reconnectAttempts := n\<rparr>) = wa_inv w"
  "wa_inv (w\<lparr>store := st\<rparr>) = wa_inv w"
  by (simp_all add: wa_inv_def timers_inv_def reconnect_timers_def listening_def)

lemma wa_inv_scheduleReconnect:
  "wa_inv w \<Longrightarrow> pending w = [] \<Longrightarrow> wa_inv (scheduleReconnect w)"
  by (simp add: wa_inv_def timers_inv_scheduleReconnect scheduleReconnect_frame listening_def)

lemma wa_inv_clearConnectionAttemptTimeout:
  "wa_inv w \<Longrightarrow> wa_inv (clearConnectionAttemptTimeout w)"
proof -
  assume inv: "wa_inv w"
  have "reconnect_timers w = [] \<Longrightarrow> reconnect_timers (clearConnectionAttemptTimeout w) = []"
    using reconnect_timers_clearConnectionAttemptTimeout(2) [of w] by simp
  with inv show ?thesis
    by (simp add: wa_inv_def timers_inv_clearConnectionAttemptTimeout
        clearConnectionAttemptTimeout_frame listening_def)
qed

lemma wa_inv_registerHandlers:
  "wa_inv w \<Longrightarrow> wa_inv (registerHandlers hs w)"
  by (simp add: wa_inv_def timers_inv_def registerHandlers_frame listening_registerHandlers)

lemma wa_inv_connect_failed:
  "wa_inv w \<Longrightarrow> pending w = [] \<Longrightarrow> wa_inv (connect_failed w)"
  unfolding connect_failed_def
  by (rule wa_inv_scheduleReconnect) (simp_all add: wa_inv_def timers_inv_def reconnect_timers_def
      listening_def)

lemma wa_inv_after_auth_state:
  assumes inv: "wa_inv w" and p: "pending w = []" and nl: "\<forall>k. \<not> listening w k"
  shows "wa_inv (after_auth_state outcome w)"
proof (cases outcome)
  case AuthStateRejected
  with wa_inv_connect_failed [OF inv p] show ?thesis by (simp add: after_auth_state_def)
next
  case MakeSocketThrew
  have "wa_inv (connect_failed (w\<lparr>store := Some 0\<rparr>))"
    by (rule wa_inv_connect_failed) (use inv p in \<open>simp_all add: wa_inv_field_updates\<close>)
  with MakeSocketThrew show ?thesis by (simp add: after_auth_state_def)
next
  case (SocketCreated u)
  with inv p nl show ?thesis
    by (auto simp: after_auth_state_def Let_def setTimeout_def wa_inv_def timers_inv_def
        reconnect_timers_def listening_def)
qed

lemma wa_inv_after_logout:
  assumes inv: "wa_inv w" and p: "pending w = []" and rc: "reconnect_timers w = []"
    and nl: "\<forall>k. \<not> listening w k"
  shows "wa_inv (after_logout ok w)"
  using assms
  by (auto simp: after_logout_def wa_inv_def timers_inv_def reconnect_timers_def listening_def)

lemma listening_mark_closed:
  "listening (mark_closed k w) j \<longleftrightarrow> listening w j \<and> j \<noteq> k"
  by (auto simp: mark_closed_def listening_def listens_def)

lemma mark_closed_frame:
  "sock (mark_closed k w) = sock w"
  "pending (mark_closed k w) = pending w"
  "reconnectTimeout (mark_closed k w) = reconnectTimeout w"
  "reconnect_timers (mark_closed k w) = reconnect_timers w"
  by (simp_all add: mark_closed_def reconnect_timers_def)

lemma wa_inv_on_connection_update:
  assumes inv: "wa_inv w" and p: "pending w = []"
    and nl: "connection update = ConnectionClose \<longrightarrow> (\<forall>k. \<not> listening w k)"
  shows "wa_inv (on_connection_update update w)"
proof -
  let ?w1 = "clearConnectionAttemptTimeout w"
  have i1: "wa_inv ?w1" by (rule wa_inv_clearConnectionAttemptTimeout [OF inv])
  have p1: "pending ?w1 = []" using p by (simp add: clearConnectionAttemptTimeout_frame)
  have l1: "\<And>k. listening ?w1 k = listening w k"
    by (simp add: listening_def clearConnectionAttemptTimeout_frame)
  show ?thesis
  proof (cases "connection update")
    case ConnectionOpen
    have "wa_inv (emit_connection_open (?w1\<lparr>isConnecting := False, reconnectAttempts := 0\<rparr>))"
      using i1 by (auto simp: emit_connection_open_def setTimeout_def wa_inv_def timers_inv_def
          reconnect_timers_def listening_def)
    with ConnectionOpen show ?thesis by (simp add: on_connection_update_def Let_def)
  next
    case ConnectionOther
    with i1 show ?thesis by (simp add: on_connection_update_def Let_def)
  next
    case ConnectionClose
    let ?w2 = "?w1\<lparr>isConnecting := False, sock := None, store := None\<rparr>"
    have e: "emit_pre_disconnect ?w2 = ?w2"
      by (simp add: emit_pre_disconnect_def unregisterHandlers_def)
    from ConnectionClose nl l1 have "\<And>k. \<not> listening ?w1 k" by simp
    with i1 p1 have i2: "wa_inv ?w2" and p2: "pending ?w2 = []"
      by (simp_all add: wa_inv_def timers_inv_def reconnect_timers_def listening_def)
    have "wa_inv (scheduleReconnect (?w2\<lparr>reconnectAttempts := Suc (reconnectAttempts ?w2)\<rparr>))"
      by (rule wa_inv_scheduleReconnect) (use i2 p2 in \<open>simp_all add: wa_inv_field_updates\<close>)
    with i2 ConnectionClose show ?thesis
      by (simp add: on_connection_update_def Let_def e)
  qed
qed

lemma wa_inv_timer_removed:
  assumes inv: "wa_inv w"
  shows "wa_inv (w\<lparr>timers := remove1 x (timers w)\<rparr>)"
proof -
  have r: "reconnect_timers (w\<lparr>timers := remove1 x (timers w)\<rparr>) = remove1 x (reconnect_timers w)"
    by (simp add: reconnect_timers_def filter_remove1)
  have "length (remove1 x (reconnect_timers w)) \<le> length (reconnect_timers w)"
    by (simp add: length_remove1)
  moreover have "set (remove1 x (reconnect_timers w)) \<subseteq> set (reconnect_timers w)"
    by (rule set_remove1_subset)
  moreover have "reconnect_timers w = [] \<Longrightarrow> remove1 x (reconnect_timers w) = []"
    by simp
  ultimately show ?thesis
    using inv unfolding wa_inv_def timers_inv_def r
    by (auto simp: listening_def)
qed

lemma wa_inv_step:
  assumes inv: "wa_inv w" and st: "step e w = Some w'"
  shows "wa_inv w'"
proof (cases e)
  case (TimerFires t)
  with st obtain x where x: "find (\<lambda>x. fst x = t) (timers w) = Some x"
    and w': "w' = run_callback (fst (snd x)) (w\<lparr>timers := remove1 x (timers w)\<rparr>)"
    by (auto simp: step_def split: option.splits)
  let ?w0 = "w\<lparr>timers := remove1 x (timers w)\<rparr>"
  have i0: "wa_inv ?w0" by (rule wa_inv_timer_removed [OF inv])
  from x have xin: "x \<in> set (timers w)" by (auto simp: find_Some_iff)
  show ?thesis
  proof (cases "fst (snd x)")
    case ReconnectCallback
    with xin have xr: "x \<in> set (reconnect_timers w)" by (simp add: reconnect_timers_def)
    with inv have p: "pending w = []" by (auto simp: wa_inv_def)
    from inv xr have "remove1 x (reconnect_timers w) = []"
      by (auto simp: wa_inv_def timers_inv_def single_remove1)
    then have r0: "reconnect_timers ?w0 = []"
      by (simp add: reconnect_timers_def filter_remove1)
    have "wa_inv (?w0\<lparr>reconnectTimeout := None\<rparr>)"
      using i0 r0 by (simp add: wa_inv_def timers_inv_def reconnect_timers_def listening_def)
    then have "wa_inv (connectToWhatsApp (?w0\<lparr>reconnectTimeout := None\<rparr>))"
      by (rule wa_inv_connectToWhatsApp) (simp add: p)
    with ReconnectCallback show ?thesis by (simp add: w' run_callback_def)
  next
    case ConnectionAttemptCallback
    with i0 show ?thesis by (simp add: w' run_callback_def)
  next
    case RegisterHandlersCallback
    with wa_inv_registerHandlers [OF i0] show ?thesis by (simp add: w' run_callback_def)
  qed
next
  case (LogoutSettled k ok)
  with st have pin: "AwaitLogout k \<in> set (pending w)"
    and w': "w' = after_logout ok (w\<lparr>pending := remove1 (AwaitLogout k) (pending w)\<rparr>)"
    by (auto simp: step_def split: if_splits)
  let ?w0 = "w\<lparr>pending := remove1 (AwaitLogout k) (pending w)\<rparr>"
  from inv pin have r: "remove1 (AwaitLogout k) (pending w) = []"
    and rc: "reconnect_timers w = []" and nl: "\<forall>k. \<not> listening w k"
    by (auto simp: wa_inv_def single_remove1)
  have "wa_inv (after_logout ok ?w0)"
    by (rule wa_inv_after_logout)
       (use inv r rc nl in \<open>simp_all add: wa_inv_def timers_inv_def reconnect_timers_def listening_def\<close>)
  then show ?thesis by (simp add: w')
next
  case (AuthStateSettled outcome)
  with st have pin: "AwaitAuthState \<in> set (pending w)"
    and w': "w' = after_auth_state outcome (w\<lparr>pending := remove1 AwaitAuthState (pending w)\<rparr>)"
    by (auto simp: step_def split: if_splits)
  from inv pin have r: "remove1 AwaitAuthState (pending w) = []"
    and rc: "reconnect_timers w = []" and nl: "\<forall>k. \<not> listening w k"
    by (auto simp: wa_inv_def single_remove1)
  have "wa_inv (after_auth_state outcome (w\<lparr>pending := remove1 AwaitAuthState (pending w)\<rparr>))"
    by (rule wa_inv_after_auth_state)
       (use inv r rc nl in \<open>simp_all add: wa_inv_def timers_inv_def reconnect_timers_def listening_def\<close>)
  then show ?thesis by (simp add: w')
next
  case (SocketUpdate k update)
  with st have li: "listening w k"
    and w': "w' = on_connection_update update
                    (if connection update = ConnectionClose then mark_closed k w else w)"
    by (auto simp: step_def split: if_splits)
  from inv li have p: "pending w = []" and cur: "\<forall>j. listening w j \<longrightarrow> sock w = Some j"
    and sk: "sock w = Some k"
    by (auto simp: wa_inv_def)
  show ?thesis
  proof (cases "connection update = ConnectionClose")
    case True
    have im: "wa_inv (mark_closed k w)"
      using inv by (simp add: wa_inv_def timers_inv_def mark_closed_frame listening_mark_closed)
    have "wa_inv (on_connection_update update (mark_closed k w))"
      by (rule wa_inv_on_connection_update [OF im])
         (use p cur sk in \<open>auto simp: listening_mark_closed mark_closed_frame\<close>)
    with True show ?thesis by (simp add: w')
  next
    case False
    have "wa_inv (on_connection_update update w)"
      by (rule wa_inv_on_connection_update [OF inv p]) (use False in simp)
    with False show ?thesis by (simp add: w')
  qed
next
  case RegistryModuleInit
  with st wa_inv_registerHandlers [OF inv] show ?thesis
    by (auto simp: step_def)
next
  case (ContactsSynced n)
  with st inv show ?thesis
    by (auto simp: step_def wa_inv_field_updates split: if_splits)
qed

lemma wa_inv_run:
  "wa_inv w \<Longrightarrow> run es w = Some w' \<Longrightarrow> wa_inv w'"
proof (induction es arbitrary: w)
  case Nil
  then show ?case by simp
next
  case (Cons e es)
  then show ?case
    by (auto split: option.splits dest: wa_inv_step)
qed

lemma wa_inv_initial: "wa_inv (connectToWhatsApp initial_world)"
  by (rule wa_inv_connectToWhatsApp)
     (simp_all add: wa_inv_def timers_inv_def reconnect_timers_def listening_def listens_def
        initial_world_def)

lemma reachable_inv: "reachable w \<Longrightarrow> wa_inv w"
  using wa_inv_run [OF wa_inv_initial] by (auto simp: reachable_def)

subsection \<open>isConnected\<close>

lemma registerHandlers_store: "store (registerHandlers hs w) = store w"
  by (simp add: registerHandlers_def split: option.splits)

lemma clearConnectionAttemptTimeout_store:
  "store (clearConnectionAttemptTimeout w) = store w"
  by (simp add: clearConnectionAttemptTimeout_def clearTimeout_def split: option.splits)

lemma clearReconnectTimeout_store: "store (clearReconnectTimeout w) = store w"
  by (simp add: clearReconnectTimeout_def clearTimeout_def split: option.splits)

lemma scheduleReconnect_store: "store (scheduleReconnect w) = store w"
  by (simp add: scheduleReconnect_def setTimeout_def Let_def)

lemma handle_inv_null:
  "sock w = None \<Longrightarrow> handle_inv w \<longleftrightarrow>
     (\<forall>k. AwaitLogout k \<notin> set (pending w)) \<and> (store w = None \<or> store w = Some 0)"
  by (auto simp: handle_inv_def)

lemma handle_inv_connectToWhatsApp:
  assumes h: "handle_inv w" and s: "sock w = None"
  shows "handle_inv (connectToWhatsApp w)"
proof (cases "isConnecting w")
  case True
  with h show ?thesis by (simp add: connectToWhatsApp_def)
next
  case False
  let ?w1 = "clearReconnectTimeout (clearConnectionAttemptTimeout (w\<lparr>isConnecting := True\<rparr>))"
  have s1: "sock ?w1 = None" and p1: "pending ?w1 = pending w" and st: "store ?w1 = store w"
    using s by (simp_all add: clearReconnectTimeout_frame clearConnectionAttemptTimeout_frame
        clearReconnectTimeout_store clearConnectionAttemptTimeout_store)
  from False s1 have c: "connectToWhatsApp w = ?w1\<lparr>pending := pending ?w1 @ [AwaitAuthState]\<rparr>"
    by (simp add: connectToWhatsApp_def Let_def)
  have sc: "sock (connectToWhatsApp w) = None" unfolding c using s1 by simp
  show ?thesis
    unfolding handle_inv_null [OF sc]
    unfolding c using h s p1 st by (simp add: handle_inv_null)
qed

lemma handle_inv_connect_failed:
  assumes h: "handle_inv w" and s: "sock w = None"
  shows "handle_inv (connect_failed w)"
proof -
  have sc: "sock (connect_failed w) = None"
    using s by (simp add: connect_failed_def scheduleReconnect_frame)
  show ?thesis
    unfolding handle_inv_null [OF sc]
    using h s by (simp add: connect_failed_def scheduleReconnect_frame scheduleReconnect_store
        handle_inv_null)
qed

lemma handle_inv_step:
  assumes inv: "wa_inv w" and h: "handle_inv w" and st: "step e w = Some w'"
  shows "handle_inv w'"
proof (cases e)
  case (TimerFires t)
  with st obtain x where x: "find (\<lambda>x. fst x = t) (timers w) = Some x"
    and w': "w' = run_callback (fst (snd x)) (w\<lparr>timers := remove1 x (timers w)\<rparr>)"
    by (auto simp: step_def split: option.splits)
  let ?w0 = "w\<lparr>timers := remove1 x (timers w)\<rparr>"
  have r0: "reconnect_timers ?w0 = remove1 x (reconnect_timers w)"
    by (simp add: reconnect_timers_def filter_remove1)
  have "reconnect_timers ?w0 \<noteq> [] \<Longrightarrow> reconnect_timers w \<noteq> []"
    unfolding r0 by auto
  with h have h0: "handle_inv ?w0" by (auto simp: handle_inv_def)
  from x have xin: "x \<in> set (timers w)" by (auto simp: find_Some_iff)
  show ?thesis
  proof (cases "fst (snd x)")
    case ReconnectCallback
    with xin have "x \<in> set (reconnect_timers w)" by (simp add: reconnect_timers_def)
    then have "reconnect_timers w \<noteq> []" by auto
    with h have s: "sock w = None" by (simp add: handle_inv_def)
    have "handle_inv (?w0\<lparr>reconnectTimeout := None\<rparr>)"
      using h0 s by (simp add: handle_inv_null)
    then have "handle_inv (connectToWhatsApp (?w0\<lparr>reconnectTimeout := None\<rparr>))"
      by (rule handle_inv_connectToWhatsApp) (simp add: s)
    with ReconnectCallback show ?thesis by (simp add: w' run_callback_def)
  next
    case ConnectionAttemptCallback
    with h0 show ?thesis by (simp add: w' run_callback_def)
  next
    case RegisterHandlersCallback
    have "handle_inv (registerHandlers handlers ?w0)"
      using h0 by (simp add: handle_inv_def registerHandlers_frame registerHandlers_store)
    with RegisterHandlersCallback show ?thesis by (simp add: w' run_callback_def)
  qed
next
  case (LogoutSettled k ok)
  with st have "AwaitLogout k \<in> set (pending w)"
    by (auto simp: step_def split: if_splits)
  with h show ?thesis by (simp add: handle_inv_def)
next
  case (AuthStateSettled outcome)
  with st have pin: "AwaitAuthState \<in> set (pending w)"
    and w': "w' = after_auth_state outcome (w\<lparr>pending := remove1 AwaitAuthState (pending w)\<rparr>)"
    by (auto simp: step_def split: if_splits)
  let ?w0 = "w\<lparr>pending := remove1 AwaitAuthState (pending w)\<rparr>"
  from pin have pne: "pending w \<noteq> []" by auto
  with h have s: "sock w = None" by (simp add: handle_inv_def)
  from inv pin have r: "remove1 AwaitAuthState (pending w) = []"
    and rc: "reconnect_timers w = []"
    by (auto simp: wa_inv_def single_remove1)
  have h0: "handle_inv ?w0" and s0: "sock ?w0 = None"
    using h s r by (simp_all add: handle_inv_null)
  show ?thesis
  proof (cases outcome)
    case AuthStateRejected
    with handle_inv_connect_failed [OF h0 s0] show ?thesis
      by (simp add: w' after_auth_state_def)
  next
    case MakeSocketThrew
    have "handle_inv (connect_failed (?w0\<lparr>store := Some 0\<rparr>))"
      by (rule handle_inv_connect_failed) (use h0 s0 in \<open>simp_all add: handle_inv_null\<close>)
    with MakeSocketThrew show ?thesis by (simp add: w' after_auth_state_def)
  next
    case (SocketCreated u)
    with r rc show ?thesis
      by (simp add: w' after_auth_state_def Let_def setTimeout_def handle_inv_def
          reconnect_timers_def)
  qed
next
  case (SocketUpdate k update)
  with st have li: "listening w k"
    and w': "w' = on_connection_update update
                    (if connection update = ConnectionClose then mark_closed k w else w)"
    by (auto simp: step_def split: if_splits)
  from inv li have p: "pending w = []" and sk: "sock w = Some k"
    by (auto simp: wa_inv_def)
  from h sk have rc: "reconnect_timers w = []" by (auto simp: handle_inv_def)
  have rcc: "reconnect_timers (clearConnectionAttemptTimeout w) = []"
    using reconnect_timers_clearConnectionAttemptTimeout(2) [of w] rc by simp
  show ?thesis
  proof (cases "connection update")
    case ConnectionClose
    let ?m = "mark_closed k w"
    let ?w2 = "(clearConnectionAttemptTimeout ?m)\<lparr>isConnecting := False, sock := None, store := None\<rparr>"
    have e: "emit_pre_disconnect ?w2 = ?w2"
      by (simp add: emit_pre_disconnect_def unregisterHandlers_def)
    have p2: "pending ?w2 = []"
      using p by (simp add: clearConnectionAttemptTimeout_frame mark_closed_frame)
    have sc: "sock w' = None"
      using ConnectionClose by (simp add: w' on_connection_update_def Let_def e
          scheduleReconnect_frame)
    show ?thesis
      unfolding handle_inv_null [OF sc]
      using ConnectionClose p2
      by (simp add: w' on_connection_update_def Let_def e scheduleReconnect_frame
          scheduleReconnect_store)
  next
    case ConnectionOpen
    then have w'o: "w' = emit_connection_open
        ((clearConnectionAttemptTimeout w)\<lparr>isConnecting := False, reconnectAttempts := 0\<rparr>)"
      by (simp add: w' on_connection_update_def Let_def)
    show ?thesis
      unfolding w'o using rcc p sk
      by (simp add: handle_inv_def emit_connection_open_def setTimeout_def reconnect_timers_def
          clearConnectionAttemptTimeout_frame)
  next
    case ConnectionOther
    then have w'o: "w' = clearConnectionAttemptTimeout w"
      by (simp add: w' on_connection_update_def Let_def)
    show ?thesis
      unfolding w'o using rcc p sk
      by (simp add: handle_inv_def clearConnectionAttemptTimeout_frame)
  qed
next
  case RegistryModuleInit
  with st h show ?thesis
    by (auto simp: step_def handle_inv_def registerHandlers_frame registerHandlers_store)
next
  case (ContactsSynced n)
  with st h show ?thesis
    by (auto simp: step_def handle_inv_def reconnect_timers_def split: if_splits)
qed

lemma invs_run:
  "wa_inv w \<Longrightarrow> handle_inv w \<Longrightarrow> run es w = Some w' \<Longrightarrow> handle_inv w'"
proof (induction es arbitrary: w)
  case Nil
  then show ?case by simp
next
  case (Cons e es)
  from Cons.prems(3) obtain w1 where s1: "step e w = Some w1" and r: "run es w1 = Some w'"
    by (auto split: option.splits)
  from wa_inv_step [OF Cons.prems(1) s1] handle_inv_step [OF Cons.prems(1,2) s1] r
  show ?case by (rule Cons.IH)
qed

lemma reachable_handle_inv: "reachable w \<Longrightarrow> handle_inv w"
proof -
  assume "reachable w"
  then obtain es where es: "run es (connectToWhatsApp initial_world) = Some w"
    by (auto simp: reachable_def)
  have i: "handle_inv initial_world" and s: "sock initial_world = None"
    by (simp_all add: handle_inv_def initial_world_def reconnect_timers_def)
  from invs_run [OF wa_inv_initial handle_inv_connectToWhatsApp [OF i s] es]
  show ?thesis .
qed

lemma reachable_null_handle: "reachable w \<Longrightarrow> sock w = None \<Longrightarrow> \<not> isConnected w"
  using reachable_handle_inv [of w] by (auto simp: handle_inv_def isConnected_def)

text \<open>
  C6. In every reachable state of the gateway service \<^verbatim>\<open>isConnected()\<close> is false when
  the handle is null, and when it is true the handle is live, no connect is suspended and
  no reconnect timer is armed; it is false after every \<^verbatim>\<open>close\<close> update, with or without
  the logged-out status. In every reachable state of the broker service
  \<^verbatim>\<open>isConnected()\<close> is false while a connect is in progress or a reconnect timer is
  armed, and when it is true the channel is live, no connect is in progress or suspended
  and no timer is armed. (The gateway's answer can be true before the socket has reported
  \<^verbatim>\<open>open\<close>: the counterexample below.)
\<close>

theorem isConnected_live_handle:
  "(reachable w \<and> sock w = None \<longrightarrow> \<not> isConnected w) \<and>
   (reachable w \<and> isConnected w \<longrightarrow>
      sock w \<noteq> None \<and> pending w = [] \<and> reconnect_timers w = []) \<and>
   \<not> isConnected (on_connection_update (close_update code) w) \<and>
   (amqp_reachable a \<and> (amqp_isConnecting a \<or> amqp_timers a \<noteq> []) \<longrightarrow> \<not> amqp_isConnected a) \<and>
   (amqp_reachable a \<and> amqp_isConnected a \<longrightarrow>
      amqp_channel a \<noteq> None \<and> \<not> amqp_isConnecting a \<and> amqp_pending a = [] \<and>
      amqp_timers a = [])"
proof (intro conjI impI)
  show "\<not> isConnected w" if "reachable w \<and> sock w = None"
    using that by (simp add: reachable_null_handle)
  show "\<not> isConnected (on_connection_update (close_update code) w)"
    by (simp add: isConnected_def on_connection_update_def close_update_def Let_def
        clearConnectionAttemptTimeout_def clearTimeout_def emit_pre_disconnect_def
        unregisterHandlers_def scheduleReconnect_def setTimeout_def split: option.splits)
  show "\<not> amqp_isConnected a" if "amqp_reachable a \<and> (amqp_isConnecting a \<or> amqp_timers a \<noteq> [])"
    using that amqp_reachable_inv [of a] by (auto simp: amqp_inv_def amqp_isConnected_def)
next
  assume a: "reachable w \<and> isConnected w"
  then show s: "sock w \<noteq> None" using reachable_null_handle [of w] by blast
  from a have "handle_inv w" by (simp add: reachable_handle_inv)
  with s show "pending w = []" and "reconnect_timers w = []"
    by (auto simp: handle_inv_def)
next
  assume a: "amqp_reachable a \<and> amqp_isConnected a"
  then have inv: "amqp_inv a" and c: "amqp_channel a \<noteq> None"
    by (simp_all add: amqp_reachable_inv amqp_isConnected_def)
  from c show "amqp_channel a \<noteq> None" .
  from inv c show "\<not> amqp_isConnecting a" by (auto simp: amqp_inv_def)
  from inv c show "amqp_timers a = []" by (auto simp: amqp_inv_def)
  from inv c show "amqp_pending a = []" by (auto simp: amqp_inv_def)
qed

lemma opened_world_reachable: "reachable opened_world"
proof -
  have "run [AuthStateSettled (SocketCreated True), SocketUpdate 0 open_update]
      (connectToWhatsApp initial_world) = Some opened_world"
    by (simp add: wa_defs opened_world_def)
  then show ?thesis unfolding reachable_def by blast
qed

theorem isConnected_live_handle_witness:
  "reachable (connectToWhatsApp initial_world) \<and> sock (connectToWhatsApp initial_world) = None \<and>
   \<not> isConnected (connectToWhatsApp initial_world) \<and>
   reachable opened_world \<and> isConnected opened_world \<and> sock opened_world \<noteq> None \<and>
   pending opened_world = [] \<and>
   amqp_reachable (amqp_connect amqp_initial) \<and> amqp_isConnecting (amqp_connect amqp_initial) \<and>
   \<not> amqp_isConnected (amqp_connect amqp_initial)"
proof -
  let ?w = "connectToWhatsApp initial_world"
  let ?a = "amqp_connect amqp_initial"
  have "run [] ?w = Some ?w" by simp
  then have r: "reachable ?w" unfolding reachable_def by blast
  have s: "sock ?w = None"
    by (simp add: connectToWhatsApp_def initial_world_def Let_def clearReconnectTimeout_def
        clearConnectionAttemptTimeout_def)
  have "amqp_run [] ?a = Some ?a" by simp
  then have ar: "amqp_reachable ?a" unfolding amqp_reachable_def by blast
  have ac: "amqp_isConnecting ?a"
    by (simp add: amqp_connect_def amqp_initial_def amqp_clearReconnectTimeout_def)
  have oc: "isConnected opened_world"
    by (simp add: isConnected_def opened_world_def)
  note th = isConnected_live_handle [of ?w None ?a]
  note tho = isConnected_live_handle [of opened_world None ?a]
  from r s have h1: "reachable ?w \<and> sock ?w = None" by simp
  have n1: "\<not> isConnected ?w"
    by (rule th [THEN conjunct1, THEN mp, OF h1])
  from opened_world_reachable oc have h2: "reachable opened_world \<and> isConnected opened_world"
    by simp
  have p2: "sock opened_world \<noteq> None \<and> pending opened_world = [] \<and> reconnect_timers opened_world = []"
    by (rule tho [THEN conjunct2, THEN conjunct1, THEN mp, OF h2])
  from ar ac have h3: "amqp_reachable ?a \<and> (amqp_isConnecting ?a \<or> amqp_timers ?a \<noteq> [])" by simp
  have n3: "\<not> amqp_isConnected ?a"
    by (rule th [THEN conjunct2, THEN conjunct2, THEN conjunct2, THEN conjunct1, THEN mp, OF h3])
  from r s n1 opened_world_reachable oc p2 ar ac n3 show ?thesis by simp
qed

text \<open>
  The service starts and creates socket 0 for a session that already has a user: the
  socket has not reported \<^verbatim>\<open>open\<close>, the flag \<^verbatim>\<open>isConnecting\<close> is still set, and
  \<^verbatim>\<open>isConnected()\<close> is already true.
\<close>

theorem isConnected_while_connecting_counterexample:
  "map_option (\<lambda>w. (isConnecting w, isConnected w))
     (run [AuthStateSettled (SocketCreated True)] (connectToWhatsApp initial_world)) =
   Some (True, True)"
  by (simp add: wa_defs isConnected_def)

subsection \<open>Single flight\<close>

text \<open>
  C8. \<^verbatim>\<open>connect\<close> returns without any change when the flag \<^verbatim>\<open>isConnecting\<close> is set,
  and \<^verbatim>\<open>scheduleReconnect\<close> returns without any change when the flag is set or a reconnect
  timer is held, in both services. In every state reachable from start-up by timers
  firing, suspended connects resuming and connections reporting (shutdown apart), at most
  one reconnect timer is armed and at most one connect is suspended; in the gateway service
  a socket that can still report is the current one and excludes a suspended connect; in
  the broker service a suspended connect has the flag set.
\<close>

theorem single_flight:
  "(isConnecting w \<longrightarrow> connectToWhatsApp w = w) \<and>
   (isConnecting w \<or> reconnectTimeout w \<noteq> None \<longrightarrow> scheduleReconnect w = w) \<and>
   (reachable w \<longrightarrow>
      length (reconnect_timers w) \<le> 1 \<and> length (pending w) \<le> 1 \<and>
      (\<forall>k. listening w k \<longrightarrow> pending w = [] \<and> sock w = Some k)) \<and>
   (amqp_isConnecting a \<longrightarrow> amqp_connect a = a) \<and>
   (amqp_isConnecting a \<or> amqp_reconnectTimeout a \<noteq> None \<longrightarrow> amqp_scheduleReconnect a = a) \<and>
   (amqp_reachable a \<longrightarrow>
      length (amqp_timers a) \<le> 1 \<and> length (amqp_pending a) \<le> 1 \<and>
      (amqp_pending a \<noteq> [] \<longrightarrow> amqp_isConnecting a))"
proof (intro conjI impI)
  show "connectToWhatsApp w = w" if "isConnecting w"
    using that by (simp add: connectToWhatsApp_def)
  show "scheduleReconnect w = w" if "isConnecting w \<or> reconnectTimeout w \<noteq> None"
    using that by (auto simp: scheduleReconnect_def)
  show "amqp_connect a = a" if "amqp_isConnecting a"
    using that by (simp add: amqp_connect_def)
  show "amqp_scheduleReconnect a = a" if "amqp_isConnecting a \<or> amqp_reconnectTimeout a \<noteq> None"
    using that by (auto simp: amqp_scheduleReconnect_def)
next
  assume "reachable w"
  then have inv: "wa_inv w" by (rule reachable_inv)
  then show "length (reconnect_timers w) \<le> 1" by (simp add: wa_inv_def timers_inv_def)
  from inv show "length (pending w) \<le> 1" by (simp add: wa_inv_def)
  from inv show "\<forall>k. listening w k \<longrightarrow> pending w = [] \<and> sock w = Some k"
    by (auto simp: wa_inv_def)
next
  assume "amqp_reachable a"
  then have inv: "amqp_inv a" by (rule amqp_reachable_inv)
  then show "length (amqp_timers a) \<le> 1" by (simp add: amqp_inv_def)
  from inv show "length (amqp_pending a) \<le> 1" by (simp add: amqp_inv_def)
  from inv show "amqp_isConnecting a" if "amqp_pending a \<noteq> []"
    using that by (simp add: amqp_inv_def)
qed

theorem single_flight_witness:
  "reachable (connectToWhatsApp initial_world) \<and>
   isConnecting (connectToWhatsApp initial_world) \<and>
   connectToWhatsApp (connectToWhatsApp initial_world) = connectToWhatsApp initial_world \<and>
   scheduleReconnect (connectToWhatsApp initial_world) = connectToWhatsApp initial_world \<and>
   length (pending (connectToWhatsApp initial_world)) \<le> 1 \<and>
   amqp_reachable (amqp_connect amqp_initial) \<and>
   amqp_isConnecting (amqp_connect amqp_initial) \<and>
   amqp_connect (amqp_connect amqp_initial) = amqp_connect amqp_initial \<and>
   length (amqp_pending (amqp_connect amqp_initial)) \<le> 1"
proof -
  have "run [] (connectToWhatsApp initial_world) = Some (connectToWhatsApp initial_world)" by simp
  then have r: "reachable (connectToWhatsApp initial_world)"
    unfolding reachable_def by blast
  have "amqp_run [] (amqp_connect amqp_initial) = Some (amqp_connect amqp_initial)" by simp
  then have ar: "amqp_reachable (amqp_connect amqp_initial)"
    unfolding amqp_reachable_def by blast
  have c: "isConnecting (connectToWhatsApp initial_world)"
    by (simp add: connectToWhatsApp_def initial_world_def Let_def clearReconnectTimeout_def
        clearConnectionAttemptTimeout_def)
  have ac: "amqp_isConnecting (amqp_connect amqp_initial)"
    by (simp add: amqp_connect_def amqp_initial_def amqp_clearReconnectTimeout_def)
  from single_flight [of "connectToWhatsApp initial_world" "amqp_connect amqp_initial"] r ar c ac
  show ?thesis by blast
qed


end
